theory Spec2Isabelle
  imports Complex_Main
begin

section \<open>Python values shared by the scripts\<close>

text \<open>
  The exceptions that matter to the modelled functions. \<open>HubError\<close> stands for any
  \<open>Exception\<close> raised by the hub client or by the process-table query; both call sites
  catch \<open>Exception\<close>, so one constructor suffices.
\<close>

datatype py_error = KeyError | ZeroDivisionError | HubError

text \<open>Python's true division \<open>a / b\<close>: raises when the divisor is zero.\<close>

definition truediv :: "rat \<Rightarrow> rat \<Rightarrow> py_error + rat" where
  "truediv a b = (if b = 0 then Inl ZeroDivisionError else Inr (a / b))"

text \<open>\<open>pat in text\<close> and \<open>text.endswith(suffix)\<close> on strings.\<close>

fun starts_with :: "string \<Rightarrow> string \<Rightarrow> bool" where
  "starts_with [] s = True"
| "starts_with (p # ps) [] = False"
| "starts_with (p # ps) (c # cs) = (p = c \<and> starts_with ps cs)"

fun contains :: "string \<Rightarrow> string \<Rightarrow> bool" where
  "contains pat [] = (pat = [])"
| "contains pat (c # cs) = (starts_with pat (c # cs) \<or> contains pat cs)"

definition endswith :: "string \<Rightarrow> string \<Rightarrow> bool" where
  "endswith s suffix =
     (length suffix \<le> length s \<and> drop (length s - length suffix) s = suffix)"

section \<open>The file system below a model directory\<close>

text \<open>
  What \<open>pathlib\<close> sees at and below \<open>model_path\<close>: a regular file with its
  \<open>st_size\<close>, a directory with its own \<open>st_size\<close> and its entries in the order the
  operating system lists them, or something that exists but is neither (a socket, a
  FIFO). The tree is the view after symbolic links are followed.
\<close>

datatype fs_node = File int | Dir int "(string \<times> fs_node) list" | Special int

fun st_size :: "fs_node \<Rightarrow> int" where
  "st_size (File n) = n"
| "st_size (Dir n es) = n"
| "st_size (Special n) = n"

fun is_file :: "fs_node \<Rightarrow> bool" where
  "is_file (File n) = True"
| "is_file (Dir n es) = False"
| "is_file (Special n) = False"

text \<open>
  \<open>model_path / rel\<close>: the relative path is cut at \<open>/\<close>; \<open>pathlib\<close> drops empty
  and \<open>.\<close> components. Expected paths come from the hub's file list, which holds no
  \<open>..\<close> component and no absolute path; a \<open>..\<close> component is looked up as a name and
  is never found.
\<close>

fun split_sep :: "char \<Rightarrow> string \<Rightarrow> string list" where
  "split_sep sep [] = [[]]"
| "split_sep sep (c # cs) =
     (if c = sep then [] # split_sep sep cs
      else (case split_sep sep cs of
              [] \<Rightarrow> [[c]]
            | w # ws \<Rightarrow> (c # w) # ws))"

definition path_parts :: "string \<Rightarrow> string list" where
  "path_parts rel = filter (\<lambda>p. p \<noteq> [] \<and> p \<noteq> ''.'') (split_sep CHR ''/'' rel)"

fun walk :: "fs_node \<Rightarrow> string list \<Rightarrow> fs_node option" where
  "walk n [] = Some n"
| "walk n (p # ps) =
     (case n of
        Dir s es \<Rightarrow> (case map_of es p of None \<Rightarrow> None | Some c \<Rightarrow> walk c ps)
      | _ \<Rightarrow> None)"

text \<open>The node \<open>(model_path / rel).stat()\<close> reads; \<open>None\<close> when \<open>exists()\<close> is false.\<close>

definition path_lookup :: "fs_node \<Rightarrow> string \<Rightarrow> fs_node option" where
  "path_lookup dir rel = walk dir (path_parts rel)"

definition path_exists :: "fs_node \<Rightarrow> string \<Rightarrow> bool" where
  "path_exists dir rel = (path_lookup dir rel \<noteq> None)"

text \<open>
  \<open>model_path.rglob('*')\<close>: every entry below the model directory, directories included, each as
  (components of its parent relative to the model directory, its name, the node).
\<close>

fun rglob :: "string list \<Rightarrow> fs_node \<Rightarrow> (string list \<times> string \<times> fs_node) list"
  and rglob_entries ::
    "string list \<Rightarrow> (string \<times> fs_node) list \<Rightarrow> (string list \<times> string \<times> fs_node) list"
where
  "rglob parent (Dir n es) = rglob_entries parent es"
| "rglob parent (File n) = []"
| "rglob parent (Special n) = []"
| "rglob_entries parent [] = []"
| "rglob_entries parent ((name, child) # es) =
     (parent, name, child) # rglob (parent @ [name]) child @ rglob_entries parent es"

text \<open>\<open>str(file_path.relative_to(model_path))\<close>.\<close>

fun join_path :: "string list \<Rightarrow> string" where
  "join_path [] = ''.''"
| "join_path [p] = p"
| "join_path (p # q # ps) = p @ ''/'' @ join_path (q # ps)"

section \<open>check\_model\_download.py: \<open>check_download_status\<close>\<close>

text \<open>
  A registry entry as the scripts use it: a dictionary read with \<open>info["repo_id"]\<close>
  (which raises \<open>KeyError\<close> when the key is absent). The \<open>license_info\<close>,
  \<open>parameters\<close> and \<open>hardware_requirements\<close> entries are only printed.
\<close>

record model_descriptor =
  repo_id :: "string option"
  model_type :: "string option"
  variant :: "string option"

text \<open>
  Everything \<open>check_download_status\<close> reads from outside itself:
  \<open>model_manager.model_registry\<close>, the node at \<open>settings.get_model_path(name)\<close>
  (\<open>None\<close> when the path does not exist), \<open>get_repo_file_list\<close> (an insertion-ordered
  dictionary or an exception), \<open>check_download_integrity\<close> (called with the model's
  path, which the name determines, and the repository id),
  \<open>model_manager.is_model_installed\<close>, and the standard output of \<open>ps aux\<close>.
\<close>

record environment =
  model_registry :: "string \<rightharpoonup> model_descriptor"
  get_model_path :: "string \<Rightarrow> fs_node option"
  get_repo_file_list :: "string \<Rightarrow> py_error + (string \<times> int) list"
  check_download_integrity :: "string \<Rightarrow> string \<Rightarrow> bool"
  is_model_installed :: "string \<Rightarrow> bool"
  ps_aux :: "py_error + string"

text \<open>The five values the function returns: \<open>True\<close>, \<open>False\<close> and three strings.\<close>

datatype status = Ret_True | Ret_False | Needs_config | Incomplete | Downloading

text \<open>Lines 78-86: the scan of the local directory, with no filter on the name.\<close>

definition local_scan :: "fs_node \<Rightarrow> (string \<times> int) list \<times> int" where
  "local_scan dir =
     foldl (\<lambda>(local_files, local_size) (parent, name, node).
              if is_file node
              then (local_files @ [(join_path (parent @ [name]), st_size node)],
                    local_size + st_size node)
              else (local_files, local_size))
           ([], 0) (rglob [] dir)"

text \<open>Line 99: \<open>any(size > 0 for size in file_sizes.values())\<close>.\<close>

definition has_size_info :: "(string \<times> int) list \<Rightarrow> bool" where
  "has_size_info file_sizes = list_ex (\<lambda>size. 0 < size) (map snd file_sizes)"

text \<open>
  Lines 103-112: one pass over \<open>file_sizes.items()\<close> fills \<open>missing_files\<close> and
  \<open>incomplete_files\<close>, both in the order of the dictionary.
\<close>

fun compare_expected ::
  "fs_node \<Rightarrow> (string \<times> int) list \<Rightarrow> string list \<times> (string \<times> int \<times> int) list" where
  "compare_expected dir [] = ([], [])"
| "compare_expected dir ((expected_file, expected_size) # rest) =
     (let (missing, incomplete) = compare_expected dir rest in
      case path_lookup dir expected_file of
        None \<Rightarrow> (expected_file # missing, incomplete)
      | Some local_file \<Rightarrow>
          if 0 < expected_size \<and> st_size local_file \<noteq> expected_size
          then (missing, (expected_file, st_size local_file, expected_size) # incomplete)
          else (missing, incomplete))"

definition missing_files :: "fs_node \<Rightarrow> (string \<times> int) list \<Rightarrow> string list" where
  "missing_files dir file_sizes = fst (compare_expected dir file_sizes)"

definition incomplete_files ::
  "fs_node \<Rightarrow> (string \<times> int) list \<Rightarrow> (string \<times> int \<times> int) list" where
  "incomplete_files dir file_sizes = snd (compare_expected dir file_sizes)"

text \<open>What one step of that pass appends to \<open>incomplete_files\<close> for one item.\<close>

definition report_of :: "fs_node \<Rightarrow> string \<times> int \<Rightarrow> (string \<times> int \<times> int) list" where
  "report_of dir p =
     (case path_lookup dir (fst p) of
        None \<Rightarrow> []
      | Some n \<Rightarrow>
          if 0 < snd p \<and> st_size n \<noteq> snd p then [(fst p, st_size n, snd p)] else [])"

text \<open>Lines 157-168: the structural check used when the hub gives no sizes.\<close>

definition essential_files :: "string list" where
  "essential_files = [''model_index.json'']"

definition essential_dirs :: "string list" where
  "essential_dirs =
     [''transformer'', ''text_encoder'', ''text_encoder_2'', ''tokenizer'',
      ''tokenizer_2'', ''vae'', ''scheduler'']"

definition missing_essential :: "fs_node \<Rightarrow> string list" where
  "missing_essential dir = filter (\<lambda>f. \<not> path_exists dir f) essential_files"

definition existing_dirs :: "fs_node \<Rightarrow> string list" where
  "existing_dirs dir = filter (path_exists dir) essential_dirs"

text \<open>
  Lines 133-147 and 177-191 (the same statements in both branches): the download
  integrity helper, then the configuration check.
\<close>

definition integrity_then_config :: "environment \<Rightarrow> string \<Rightarrow> string \<Rightarrow> status" where
  "integrity_then_config env name repo =
     (if check_download_integrity env name repo
      then (if is_model_installed env name then Ret_True else Needs_config)
      else Ret_False)"

text \<open>Lines 193-205: the process table; an exception of the query is caught.\<close>

definition check_process :: "environment \<Rightarrow> string \<Rightarrow> status" where
  "check_process env name =
     (case ps_aux env of
        Inl e \<Rightarrow> Incomplete
      | Inr stdout \<Rightarrow>
          if contains (''ollamadiffuser pull '' @ name) stdout then Downloading
          else Incomplete)"

text \<open>
  The function itself. The only exception that can leave it is the \<open>KeyError\<close> of
  \<open>model_info["repo_id"]\<close>; an exception of \<open>get_repo_file_list\<close> is caught and
  replaced by the empty dictionary (lines 65-75).
\<close>

definition check_download_status :: "environment \<Rightarrow> string \<Rightarrow> py_error + status" where
  "check_download_status env name =
     (case model_registry env name of
        None \<Rightarrow> Inr Ret_False
      | Some model_info \<Rightarrow>
          (case repo_id model_info of
             None \<Rightarrow> Inl KeyError
           | Some repo \<Rightarrow>
               (case get_model_path env name of
                  None \<Rightarrow> Inr Ret_False
                | Some dir \<Rightarrow>
                    (let file_sizes =
                           (case get_repo_file_list env repo of
                              Inl e \<Rightarrow> []
                            | Inr sizes \<Rightarrow> sizes)
                     in
                       if file_sizes \<noteq> [] then
                         if has_size_info file_sizes then
                           if missing_files dir file_sizes = [] \<and>
                              incomplete_files dir file_sizes = []
                           then Inr (integrity_then_config env name repo)
                           else Inr Incomplete
                         else
                           if missing_essential dir \<noteq> [] then Inr Incomplete
                           else Inr (integrity_then_config env name repo)
                       else Inr (check_process env name)))))"

section \<open>monitor\_download\_progress.py: \<open>DownloadMonitor\<close>\<close>

text \<open>
  The fields the methods read and write. Times are seconds as rationals: a
  \<open>datetime\<close> difference is a whole number of microseconds, and the guards below
  compare with zero only.
\<close>

record download_monitor =
  start_time :: rat
  last_size :: int
  last_check_time :: rat
  size_history :: "(rat \<times> int) list"

text \<open>\<open>__init__\<close> reads the clock twice.\<close>

definition new_monitor :: "rat \<Rightarrow> rat \<Rightarrow> download_monitor" where
  "new_monitor now0 now1 =
     \<lparr>start_time = now0, last_size = 0, last_check_time = now1, size_history = []\<rparr>"

text \<open>Lines 38-45: the argument is the node at \<open>model_path\<close>, if it exists.\<close>

definition get_total_downloaded_size :: "fs_node option \<Rightarrow> int" where
  "get_total_downloaded_size model_dir =
     (case model_dir of
        None \<Rightarrow> 0
      | Some dir \<Rightarrow>
          foldl (\<lambda>total_size (parent, name, node).
                   if is_file node \<and> \<not> endswith name ''.lock''
                   then total_size + st_size node
                   else total_size)
                0 (rglob [] dir))"

text \<open>Lines 47-56, with the clock read of line 49 as an argument.\<close>

definition calculate_speed :: "download_monitor \<Rightarrow> rat \<Rightarrow> int \<Rightarrow> py_error + rat" where
  "calculate_speed m now current_size =
     (let time_diff = now - last_check_time m in
      if 0 < time_diff \<and> 0 < last_size m
      then truediv (of_int (current_size - last_size m)) time_diff
      else Inr 0)"

text \<open>
  Lines 69-80. The result is the string \<open>"Unknown"\<close> or the text \<open>format_time\<close>
  makes of the remaining seconds; the model keeps the seconds.
\<close>

datatype eta = Unknown | Remaining rat

definition default_target_size :: int where
  "default_target_size = 23 * 1024 * 1024 * 1024"

definition estimate_remaining_time :: "int \<Rightarrow> rat \<Rightarrow> int option \<Rightarrow> py_error + eta" where
  "estimate_remaining_time current_size speed target_size =
     (if speed \<le> 0 then Inr Unknown
      else
        (let target = (case target_size of None \<Rightarrow> default_target_size | Some t \<Rightarrow> t);
             remaining_size = max 0 (target - current_size)
         in case truediv (of_int remaining_size) speed of
              Inl e \<Rightarrow> Inl e
            | Inr remaining_seconds \<Rightarrow> Inr (Remaining remaining_seconds)))"

text \<open>
  Lines 97-171. One call reads the clock at line 49 (inside \<open>calculate_speed\<close>), at
  line 165 and at line 168, and reads the directory once. What it prints about the
  transfer is returned as a report: the size, the speed and ETA lines (printed only
  when \<open>speed > 0\<close>) and the percentage of the progress bar (printed only when
  \<open>current_size > 0\<close>). The elapsed time, the \<open>*.incomplete\<close> files and the process
  list are printed too; they change no field and are left out.
\<close>

record clock_reads =
  now_speed :: rat
  now_check :: rat
  now_sample :: rat

record progress_report =
  downloaded :: int
  speed_line :: "rat option"
  eta_line :: "eta option"
  progress_line :: "rat option"

definition update_monitor :: "download_monitor \<Rightarrow> clock_reads \<Rightarrow> int \<Rightarrow> download_monitor" where
  "update_monitor m clock current_size =
     (let history = size_history m @ [(now_sample clock, current_size)] in
      m\<lparr>last_size := current_size,
         last_check_time := now_check clock,
         size_history := (if 10 < length history then tl history else history)\<rparr>)"

definition progress_percent :: "int \<Rightarrow> py_error + rat option" where
  "progress_percent current_size =
     (if 0 < current_size
      then (case truediv (of_int current_size) (of_int default_target_size) of
              Inl e \<Rightarrow> Inl e
            | Inr fraction \<Rightarrow> Inr (Some (min 100 (fraction * 100))))
      else Inr None)"

definition display_progress ::
  "download_monitor \<Rightarrow> clock_reads \<Rightarrow> fs_node option \<Rightarrow>
     py_error + (progress_report \<times> download_monitor)" where
  "display_progress m clock model_dir =
     (let current_size = get_total_downloaded_size model_dir in
      case calculate_speed m (now_speed clock) current_size of
        Inl e \<Rightarrow> Inl e
      | Inr speed \<Rightarrow>
          (case (if 0 < speed
                 then (case estimate_remaining_time current_size speed None of
                         Inl e \<Rightarrow> Inl e
                       | Inr t \<Rightarrow> Inr (Some speed, Some t))
                 else Inr (None, None)) of
             Inl e \<Rightarrow> Inl e
           | Inr (shown_speed, shown_eta) \<Rightarrow>
               (case progress_percent current_size of
                  Inl e \<Rightarrow> Inl e
                | Inr bar \<Rightarrow>
                    Inr (\<lparr>downloaded = current_size, speed_line = shown_speed,
                          eta_line = shown_eta, progress_line = bar\<rparr>,
                         update_monitor m clock current_size))))"

text \<open>
  Lines 180-182: the loop of \<open>run\<close> calls \<open>display_progress\<close> until it is
  interrupted; the list holds what the calls made so far have observed.
\<close>

fun run_updates ::
  "download_monitor \<Rightarrow> (clock_reads \<times> fs_node option) list \<Rightarrow> py_error + download_monitor"
where
  "run_updates m [] = Inr m"
| "run_updates m ((clock, model_dir) # rest) =
     (case display_progress m clock model_dir of
        Inl e \<Rightarrow> Inl e
      | Inr (report, m') \<Rightarrow> run_updates m' rest)"

definition sample_of :: "clock_reads \<times> fs_node option \<Rightarrow> rat \<times> int" where
  "sample_of observation =
     (now_sample (fst observation), get_total_downloaded_size (snd observation))"

section \<open>The model registry\<close>

text \<open>
  Modelled from the spec: the registry's tiers. The registry module
  (\<open>ollamadiffuser.core.config.model_registry\<close>) is not among the sources; only its
  test \<open>test_model_registry.py\<close> is. Section 3: a tier is one of builtin,
  file-configured and runtime, in ascending precedence.
\<close>

datatype registry_tier = Builtin | File_configured | Runtime

text \<open>
  Modelled from the spec: the order of the tiers, absent from the sources. Section 3:
  builtin is the lowest and runtime the highest.
\<close>

fun precedence :: "registry_tier \<Rightarrow> nat" where
  "precedence Builtin = 0"
| "precedence File_configured = 1"
| "precedence Runtime = 2"

text \<open>
  Modelled from the spec: the registry state, absent from the sources. Section 3: each
  tier owns a mapping from name to descriptor.
\<close>

record registry =
  builtin :: "string \<rightharpoonup> model_descriptor"
  file_configured :: "string \<rightharpoonup> model_descriptor"
  runtime :: "string \<rightharpoonup> model_descriptor"

text \<open>Modelled from the spec: the mapping a tier owns (the registry is absent from the sources).\<close>

fun tier_map :: "registry \<Rightarrow> registry_tier \<Rightarrow> (string \<rightharpoonup> model_descriptor)" where
  "tier_map r Builtin = builtin r"
| "tier_map r File_configured = file_configured r"
| "tier_map r Runtime = runtime r"

text \<open>Modelled from the spec: writing the mapping of one tier (the registry is absent from the sources).\<close>

fun set_tier_map ::
  "registry \<Rightarrow> registry_tier \<Rightarrow> (string \<rightharpoonup> model_descriptor) \<Rightarrow> registry" where
  "set_tier_map r Builtin m = r\<lparr>builtin := m\<rparr>"
| "set_tier_map r File_configured m = r\<lparr>file_configured := m\<rparr>"
| "set_tier_map r Runtime m = r\<lparr>runtime := m\<rparr>"

text \<open>
  Modelled from the spec: \<open>get(name)\<close>, absent from the sources. Section 4.5: it
  looks up the merged view across tiers, the runtime tier winning; section 9: a
  single \<open>resolve(name)\<close> walks the layers from the highest to the lowest.
\<close>

fun resolve :: "(string \<rightharpoonup> model_descriptor) list \<Rightarrow> string \<Rightarrow> model_descriptor option" where
  "resolve [] name = None"
| "resolve (layer # layers) name =
     (case layer name of Some d \<Rightarrow> Some d | None \<Rightarrow> resolve layers name)"

definition get_model :: "registry \<Rightarrow> string \<Rightarrow> model_descriptor option" where
  "get_model r name = resolve [runtime r, file_configured r, builtin r] name"

text \<open>
  Modelled from the spec: \<open>all_names()\<close> (\<open>get_model_names\<close> in the test), absent
  from the sources: the names of the merged view.
\<close>

definition get_model_names :: "registry \<Rightarrow> string set" where
  "get_model_names r = dom (runtime r) \<union> dom (file_configured r) \<union> dom (builtin r)"

text \<open>
  Modelled from the spec: \<open>add(name, descriptor, tier=runtime)\<close>, absent from the
  sources. Section 4.5: it inserts or overwrites in the given tier and fails if the
  descriptor lacks a required field (\<open>repo_id\<close>, \<open>model_type\<close>). The result is the
  success flag the test reads and the registry afterwards.
\<close>

definition add_model ::
  "registry \<Rightarrow> string \<Rightarrow> model_descriptor \<Rightarrow> registry_tier \<Rightarrow> bool \<times> registry" where
  "add_model r name d tier =
     (if repo_id d = None \<or> model_type d = None then (False, r)
      else (True, set_tier_map r tier ((tier_map r tier)(name \<mapsto> d))))"

text \<open>
  Modelled from the spec: the tier that currently supplies the visible entry of a name
  (the registry is absent from the sources): the highest tier that holds it.
\<close>

definition supplying_tier :: "registry \<Rightarrow> string \<Rightarrow> registry_tier option" where
  "supplying_tier r name =
     (if runtime r name \<noteq> None then Some Runtime
      else if file_configured r name \<noteq> None then Some File_configured
      else if builtin r name \<noteq> None then Some Builtin
      else None)"

text \<open>
  Modelled from the spec: \<open>remove(name)\<close>, absent from the sources. Section 4.5: it
  removes from whichever tier currently supplies the visible entry and returns false
  if the name is in no tier.
\<close>

definition remove_model :: "registry \<Rightarrow> string \<Rightarrow> bool \<times> registry" where
  "remove_model r name =
     (case supplying_tier r name of
        None \<Rightarrow> (False, r)
      | Some tier \<Rightarrow> (True, set_tier_map r tier ((tier_map r tier)(name := None))))"

section \<open>The size comparison of \<open>check_download_status\<close>\<close>

lemma missing_files_filter:
  "missing_files dir file_sizes =
     map fst (filter (\<lambda>p. path_lookup dir (fst p) = None) file_sizes)"
  unfolding missing_files_def
  by (induction file_sizes) (auto split: prod.splits option.splits)

lemma incomplete_files_concat:
  "incomplete_files dir file_sizes = concat (map (report_of dir) file_sizes)"
  unfolding incomplete_files_def report_of_def
  by (induction file_sizes) (auto split: prod.splits option.splits)

lemma set_missing_files:
  "set (missing_files dir file_sizes) =
     {f \<in> fst ` set file_sizes. path_lookup dir f = None}"
  by (auto simp: missing_files_filter)

lemma set_incomplete_files:
  "set (incomplete_files dir file_sizes) =
     {(f, a, e). (f, e) \<in> set file_sizes \<and> 0 < e \<and>
        (\<exists>n. path_lookup dir f = Some n \<and> st_size n = a \<and> a \<noteq> e)}"
  by (auto simp: incomplete_files_concat report_of_def split: option.splits if_splits)
     (metis+)

lemma filter_key_distinct:
  "distinct (map fst kvs) \<Longrightarrow> (k, v) \<in> set kvs \<Longrightarrow> filter (\<lambda>p. fst p = k) kvs = [(k, v)]"
proof (induction kvs)
  case Nil
  then show ?case by simp
next
  case (Cons p kvs)
  show ?case
  proof (cases "fst p = k")
    case True
    with Cons.prems have "p = (k, v)" by (auto simp: image_iff)
    moreover from True Cons.prems have "filter (\<lambda>q. fst q = k) kvs = []"
      by (auto simp: filter_empty_conv image_iff)
    ultimately show ?thesis by simp
  next
    case False
    with Cons show ?thesis by auto
  qed
qed

lemma concat_key_distinct:
  "distinct (map fst kvs) \<Longrightarrow> (k, v) \<in> set kvs \<Longrightarrow>
     concat (map (\<lambda>p. if fst p = k then [h p] else []) kvs) = [h (k, v)]"
proof (induction kvs)
  case Nil
  then show ?case by simp
next
  case (Cons p kvs)
  show ?case
  proof (cases "fst p = k")
    case True
    with Cons.prems have "p = (k, v)" by (auto simp: image_iff)
    moreover from True Cons.prems
    have "concat (map (\<lambda>q. if fst q = k then [h q] else []) kvs) = []"
      by (auto simp: image_iff)
    ultimately show ?thesis by simp
  next
    case False
    with Cons show ?thesis by auto
  qed
qed

lemma all_matching_complete:
  assumes "\<forall>p \<in> set file_sizes. \<exists>n. path_lookup dir (fst p) = Some n \<and> st_size n = snd p"
  shows "missing_files dir file_sizes = [] \<and> incomplete_files dir file_sizes = []"
  using assms
  by (auto simp: missing_files_filter incomplete_files_concat report_of_def filter_empty_conv)

lemma one_removed:
  assumes keys: "distinct (map fst file_sizes)"
    and before: "\<forall>p \<in> set file_sizes. \<exists>n. path_lookup dir0 (fst p) = Some n \<and> st_size n = snd p"
    and g: "(g, e) \<in> set file_sizes"
    and gone: "path_lookup dir g = None"
    and others: "\<forall>p \<in> set file_sizes. fst p \<noteq> g \<longrightarrow> path_lookup dir (fst p) = path_lookup dir0 (fst p)"
  shows "missing_files dir file_sizes = [g] \<and> incomplete_files dir file_sizes = []"
proof -
  have "filter (\<lambda>p. path_lookup dir (fst p) = None) file_sizes =
        filter (\<lambda>p. fst p = g) file_sizes"
  proof (rule filter_cong[OF refl])
    fix p assume p: "p \<in> set file_sizes"
    show "(path_lookup dir (fst p) = None) = (fst p = g)"
      using p before others gone by (cases "fst p = g") auto
  qed
  then have m: "missing_files dir file_sizes = [g]"
    by (simp add: missing_files_filter filter_key_distinct[OF keys g])
  have "\<forall>p \<in> set file_sizes. report_of dir p = []"
  proof
    fix p assume p: "p \<in> set file_sizes"
    show "report_of dir p = []"
      using p before others gone by (cases "fst p = g") (auto simp: report_of_def)
  qed
  then have "incomplete_files dir file_sizes = []"
    by (simp add: incomplete_files_concat)
  with m show ?thesis by simp
qed

lemma one_truncated:
  assumes keys: "distinct (map fst file_sizes)"
    and before: "\<forall>p \<in> set file_sizes. \<exists>n. path_lookup dir0 (fst p) = Some n \<and> st_size n = snd p"
    and g: "(g, e) \<in> set file_sizes"
    and cut: "path_lookup dir g = Some n'" "st_size n' < e" "0 \<le> st_size n'"
    and others: "\<forall>p \<in> set file_sizes. fst p \<noteq> g \<longrightarrow> path_lookup dir (fst p) = path_lookup dir0 (fst p)"
  shows "missing_files dir file_sizes = [] \<and> incomplete_files dir file_sizes = [(g, st_size n', e)]"
proof -
  have snd_g: "snd p = e" if "p \<in> set file_sizes" "fst p = g" for p
    using that keys g by (metis eq_key_imp_eq_value prod.collapse)
  have "\<forall>p \<in> set file_sizes. path_lookup dir (fst p) \<noteq> None"
    using before others cut by (metis option.distinct(1))
  then have m: "missing_files dir file_sizes = []"
    by (auto simp: missing_files_filter filter_empty_conv)
  have "map (report_of dir) file_sizes =
        map (\<lambda>p. if fst p = g then [(\<lambda>q. (g, st_size n', e)) p] else []) file_sizes"
  proof (rule map_cong[OF refl])
    fix p assume p: "p \<in> set file_sizes"
    show "report_of dir p = (if fst p = g then [(\<lambda>q. (g, st_size n', e)) p] else [])"
    proof (cases "fst p = g")
      case True
      with snd_g[OF p] cut show ?thesis by (simp add: report_of_def)
    next
      case False
      with p before others show ?thesis by (auto simp: report_of_def)
    qed
  qed
  then have "incomplete_files dir file_sizes =
      concat (map (\<lambda>p. if fst p = g then [(\<lambda>q. (g, st_size n', e)) p] else []) file_sizes)"
    by (simp only: incomplete_files_concat)
  also have "\<dots> = [(g, st_size n', e)]"
    by (rule concat_key_distinct[OF keys g])
  finally have "incomplete_files dir file_sizes = [(g, st_size n', e)]" .
  with m show ?thesis by simp
qed

lemma has_size_info_nonempty: "has_size_info file_sizes \<Longrightarrow> file_sizes \<noteq> []"
  by (auto simp: has_size_info_def)

lemma status_with_size_info:
  assumes "model_registry env name = Some info" "repo_id info = Some repo"
    and "get_model_path env name = Some dir"
    and "get_repo_file_list env repo = Inr file_sizes"
    and "has_size_info file_sizes"
  shows "check_download_status env name =
           Inr (if missing_files dir file_sizes = [] \<and> incomplete_files dir file_sizes = []
                then integrity_then_config env name repo else Incomplete)"
  using assms has_size_info_nonempty[OF assms(5)]
  by (simp add: check_download_status_def)


text \<open>
  C1. When the index gives size information, the comparison classifies every expected
  file: with every expected file present at its declared size both lists are empty
  and the function goes on to the integrity helper (the files are complete); the
  missing list holds exactly the expected files that are absent; the incomplete list
  holds exactly the triples (path, actual size, expected size) of present files whose
  declared size is positive and differs from the actual size; a non-empty list makes
  the status \<open>incomplete\<close>. Removing one file of a complete directory gives the
  missing list of that file alone, truncating one file gives the incomplete list of
  that file alone, and a file declared with size 0 is never in the incomplete list.
\<close>

theorem C1_size_comparison:
  assumes keys: "distinct (map fst file_sizes)"
    and sized: "has_size_info file_sizes"
    and entry: "model_registry env name = Some info" "repo_id info = Some repo"
    and here: "get_model_path env name = Some dir"
    and index: "get_repo_file_list env repo = Inr file_sizes"
  shows
    "((\<forall>p \<in> set file_sizes. \<exists>n. path_lookup dir (fst p) = Some n \<and> st_size n = snd p) \<longrightarrow>
        missing_files dir file_sizes = [] \<and> incomplete_files dir file_sizes = [] \<and>
        check_download_status env name = Inr (integrity_then_config env name repo))
     \<and> set (missing_files dir file_sizes) =
          {f \<in> fst ` set file_sizes. path_lookup dir f = None}
     \<and> set (incomplete_files dir file_sizes) =
          {(f, a, e). (f, e) \<in> set file_sizes \<and> 0 < e \<and>
             (\<exists>n. path_lookup dir f = Some n \<and> st_size n = a \<and> a \<noteq> e)}
     \<and> (missing_files dir file_sizes \<noteq> [] \<or> incomplete_files dir file_sizes \<noteq> [] \<longrightarrow>
          check_download_status env name = Inr Incomplete)
     \<and> (\<forall>dir0 g e.
          (\<forall>p \<in> set file_sizes. \<exists>n. path_lookup dir0 (fst p) = Some n \<and> st_size n = snd p) \<and>
          (g, e) \<in> set file_sizes \<and> path_lookup dir g = None \<and>
          (\<forall>p \<in> set file_sizes. fst p \<noteq> g \<longrightarrow>
             path_lookup dir (fst p) = path_lookup dir0 (fst p)) \<longrightarrow>
          missing_files dir file_sizes = [g] \<and> incomplete_files dir file_sizes = [])
     \<and> (\<forall>dir0 g e n'.
          (\<forall>p \<in> set file_sizes. \<exists>n. path_lookup dir0 (fst p) = Some n \<and> st_size n = snd p) \<and>
          (g, e) \<in> set file_sizes \<and>
          path_lookup dir g = Some n' \<and> 0 \<le> st_size n' \<and> st_size n' < e \<and>
          (\<forall>p \<in> set file_sizes. fst p \<noteq> g \<longrightarrow>
             path_lookup dir (fst p) = path_lookup dir0 (fst p)) \<longrightarrow>
          missing_files dir file_sizes = [] \<and>
          incomplete_files dir file_sizes = [(g, st_size n', e)])
     \<and> (\<forall>f a e. (f, 0) \<in> set file_sizes \<longrightarrow> (f, a, e) \<notin> set (incomplete_files dir file_sizes))"
proof -
  note st = status_with_size_info[OF entry here index sized]
  have c1: "(\<forall>p \<in> set file_sizes. \<exists>n. path_lookup dir (fst p) = Some n \<and> st_size n = snd p) \<longrightarrow>
        missing_files dir file_sizes = [] \<and> incomplete_files dir file_sizes = [] \<and>
        check_download_status env name = Inr (integrity_then_config env name repo)"
    using all_matching_complete[of file_sizes dir] st by simp
  have c4: "missing_files dir file_sizes \<noteq> [] \<or> incomplete_files dir file_sizes \<noteq> [] \<longrightarrow>
          check_download_status env name = Inr Incomplete"
    using st by auto
  have c5: "\<forall>dir0 g e.
          (\<forall>p \<in> set file_sizes. \<exists>n. path_lookup dir0 (fst p) = Some n \<and> st_size n = snd p) \<and>
          (g, e) \<in> set file_sizes \<and> path_lookup dir g = None \<and>
          (\<forall>p \<in> set file_sizes. fst p \<noteq> g \<longrightarrow>
             path_lookup dir (fst p) = path_lookup dir0 (fst p)) \<longrightarrow>
          missing_files dir file_sizes = [g] \<and> incomplete_files dir file_sizes = []"
    using one_removed[OF keys] by blast
  have c6: "\<forall>dir0 g e n'.
          (\<forall>p \<in> set file_sizes. \<exists>n. path_lookup dir0 (fst p) = Some n \<and> st_size n = snd p) \<and>
          (g, e) \<in> set file_sizes \<and>
          path_lookup dir g = Some n' \<and> 0 \<le> st_size n' \<and> st_size n' < e \<and>
          (\<forall>p \<in> set file_sizes. fst p \<noteq> g \<longrightarrow>
             path_lookup dir (fst p) = path_lookup dir0 (fst p)) \<longrightarrow>
          missing_files dir file_sizes = [] \<and>
          incomplete_files dir file_sizes = [(g, st_size n', e)]"
    using one_truncated[OF keys] by blast
  have c7: "\<forall>f a e. (f, 0) \<in> set file_sizes \<longrightarrow> (f, a, e) \<notin> set (incomplete_files dir file_sizes)"
  proof (intro allI impI notI)
    fix f a e
    assume z: "(f, 0) \<in> set file_sizes" and r: "(f, a, e) \<in> set (incomplete_files dir file_sizes)"
    from r have "(f, e) \<in> set file_sizes" "0 < e" by (auto simp: set_incomplete_files)
    with z keys show False by (auto dest: eq_key_imp_eq_value)
  qed
  from c1 set_missing_files[of dir file_sizes] set_incomplete_files[of dir file_sizes] c4 c5 c6 c7
  show ?thesis by (intro conjI)
qed



lemma path_parts_examples:
  "path_parts ''a.bin'' = [''a.bin'']"
  "path_parts ''sub/b.bin'' = [''sub'', ''b.bin'']"
  "path_parts ''model_index.json'' = [''model_index.json'']"
  by (simp_all add: path_parts_def)

theorem C1_size_comparison_witness:
  "check_download_status
     (\<lparr>model_registry = [''m'' \<mapsto> \<lparr>repo_id = Some ''org/m'', model_type = Some ''x'', variant = None\<rparr>],
         get_model_path = (\<lambda>n. Some (Dir 4096 [(''a.bin'', File 100), (''sub'', Dir 4096 [(''b.bin'', File 200)])])),
         get_repo_file_list = (\<lambda>r. Inr [(''a.bin'', 100), (''sub/b.bin'', 200)]),
         check_download_integrity = (\<lambda>n r. True),
         is_model_installed = (\<lambda>n. True),
         ps_aux = Inr ''USER PID COMMAND''\<rparr>) ''m'' = Inr Ret_True
   \<and> missing_files (Dir 4096 [(''a.bin'', File 100), (''sub'', Dir 4096 [])]) [(''a.bin'', 100), (''sub/b.bin'', 200)] = [''sub/b.bin'']
   \<and> incomplete_files (Dir 4096 [(''a.bin'', File 100), (''sub'', Dir 4096 [])]) [(''a.bin'', 100), (''sub/b.bin'', 200)] = []
   \<and> check_download_status
     (\<lparr>model_registry = [''m'' \<mapsto> \<lparr>repo_id = Some ''org/m'', model_type = Some ''x'', variant = None\<rparr>],
         get_model_path = (\<lambda>n. Some (Dir 4096 [(''a.bin'', File 100), (''sub'', Dir 4096 [])])),
         get_repo_file_list = (\<lambda>r. Inr [(''a.bin'', 100), (''sub/b.bin'', 200)]),
         check_download_integrity = (\<lambda>n r. True),
         is_model_installed = (\<lambda>n. True),
         ps_aux = Inr ''USER PID COMMAND''\<rparr>) ''m'' = Inr Incomplete
   \<and> missing_files (Dir 4096 [(''a.bin'', File 100), (''sub'', Dir 4096 [(''b.bin'', File 199)])]) [(''a.bin'', 100), (''sub/b.bin'', 200)] = []
   \<and> incomplete_files (Dir 4096 [(''a.bin'', File 100), (''sub'', Dir 4096 [(''b.bin'', File 199)])]) [(''a.bin'', 100), (''sub/b.bin'', 200)] = [(''sub/b.bin'', 199, 200)]
   \<and> check_download_status
     (\<lparr>model_registry = [''m'' \<mapsto> \<lparr>repo_id = Some ''org/m'', model_type = Some ''x'', variant = None\<rparr>],
         get_model_path = (\<lambda>n. Some (Dir 4096 [(''a.bin'', File 100), (''sub'', Dir 4096 [(''b.bin'', File 199)])])),
         get_repo_file_list = (\<lambda>r. Inr [(''a.bin'', 100), (''sub/b.bin'', 200)]),
         check_download_integrity = (\<lambda>n r. True),
         is_model_installed = (\<lambda>n. True),
         ps_aux = Inr ''USER PID COMMAND''\<rparr>) ''m'' = Inr Incomplete"
proof -
  let ?fs = "[(''a.bin'', 100), (''sub/b.bin'', 200)]"
  let ?info = "\<lparr>repo_id = Some ''org/m'', model_type = Some ''x'', variant = None\<rparr>"
  let ?full = "Dir 4096 [(''a.bin'', File 100), (''sub'', Dir 4096 [(''b.bin'', File 200)])]"
  let ?removed = "Dir 4096 [(''a.bin'', File 100), (''sub'', Dir 4096 [])]"
  let ?cut = "Dir 4096 [(''a.bin'', File 100), (''sub'', Dir 4096 [(''b.bin'', File 199)])]"
  let ?env = "\<lambda>d. \<lparr>model_registry = [''m'' \<mapsto> \<lparr>repo_id = Some ''org/m'', model_type = Some ''x'', variant = None\<rparr>],
         get_model_path = (\<lambda>n. Some (d)),
         get_repo_file_list = (\<lambda>r. Inr [(''a.bin'', 100), (''sub/b.bin'', 200)]),
         check_download_integrity = (\<lambda>n r. True),
         is_model_installed = (\<lambda>n. True),
         ps_aux = Inr ''USER PID COMMAND''\<rparr>"
  have keys: "distinct (map fst ?fs)" by simp
  have sized: "has_size_info ?fs" by (simp add: has_size_info_def)
  have full: "\<forall>p \<in> set ?fs. \<exists>n. path_lookup ?full (fst p) = Some n \<and> st_size n = snd p"
    by (simp add: path_lookup_def path_parts_examples)
  have entry: "model_registry (?env d) ''m'' = Some ?info" "repo_id ?info = Some ''org/m''"
    and here: "get_model_path (?env d) ''m'' = Some d"
    and index: "get_repo_file_list (?env d) ''org/m'' = Inr ?fs" for d
    by simp_all
  note at_full = C1_size_comparison [OF keys sized entry here index, of ?full]
  note at_removed = C1_size_comparison [OF keys sized entry here index, of ?removed]
  note at_cut = C1_size_comparison [OF keys sized entry here index, of ?cut]
  have gone: "path_lookup ?removed ''sub/b.bin'' = None"
    by (simp add: path_lookup_def path_parts_examples)
  have rest_removed: "\<forall>p \<in> set ?fs. fst p \<noteq> ''sub/b.bin'' \<longrightarrow>
          path_lookup ?removed (fst p) = path_lookup ?full (fst p)"
    by (simp add: path_lookup_def path_parts_examples)
  have shorter: "path_lookup ?cut ''sub/b.bin'' = Some (File 199)"
    by (simp add: path_lookup_def path_parts_examples)
  have rest_cut: "\<forall>p \<in> set ?fs. fst p \<noteq> ''sub/b.bin'' \<longrightarrow>
          path_lookup ?cut (fst p) = path_lookup ?full (fst p)"
    by (simp add: path_lookup_def path_parts_examples)
  have a: "check_download_status (?env ?full) ''m'' = Inr Ret_True"
    using at_full [THEN conjunct1, THEN mp, OF full]
    by (simp add: integrity_then_config_def)
  have b: "missing_files ?removed ?fs = [''sub/b.bin''] \<and> incomplete_files ?removed ?fs = []"
    using at_removed [THEN conjunct2, THEN conjunct2, THEN conjunct2, THEN conjunct2,
        THEN conjunct1, THEN spec [of _ ?full], THEN spec [of _ "''sub/b.bin''"],
        THEN spec [of _ 200], THEN mp]
      full gone rest_removed by simp
  have b': "check_download_status (?env ?removed) ''m'' = Inr Incomplete"
    using at_removed [THEN conjunct2, THEN conjunct2, THEN conjunct2, THEN conjunct1, THEN mp]
      b by simp
  have c: "missing_files ?cut ?fs = [] \<and> incomplete_files ?cut ?fs = [(''sub/b.bin'', 199, 200)]"
    using at_cut [THEN conjunct2, THEN conjunct2, THEN conjunct2, THEN conjunct2,
        THEN conjunct2, THEN conjunct1, THEN spec [of _ ?full],
        THEN spec [of _ "''sub/b.bin''"], THEN spec [of _ 200], THEN spec [of _ "File 199"],
        THEN mp]
      full shorter rest_cut by simp
  have c': "check_download_status (?env ?cut) ''m'' = Inr Incomplete"
    using at_cut [THEN conjunct2, THEN conjunct2, THEN conjunct2, THEN conjunct1, THEN mp]
      c by simp
  from a b b' c c' show ?thesis by simp
qed

section \<open>The status returned by \<open>check_download_status\<close>\<close>

lemma status_without_index:
  assumes "model_registry env name = Some info" "repo_id info = Some repo"
    and "get_model_path env name = Some dir"
    and "get_repo_file_list env repo = Inl e \<or> get_repo_file_list env repo = Inr []"
  shows "check_download_status env name = Inr (check_process env name)"
  using assms by (auto simp: check_download_status_def)

lemma check_process_cases: "check_process env name = Downloading \<or> check_process env name = Incomplete"
  by (simp add: check_process_def split: sum.splits)

lemma status_without_size_info:
  assumes "model_registry env name = Some info" "repo_id info = Some repo"
    and "get_model_path env name = Some dir"
    and "get_repo_file_list env repo = Inr file_sizes"
    and "file_sizes \<noteq> []" "\<not> has_size_info file_sizes"
  shows "check_download_status env name =
           Inr (if path_exists dir ''model_index.json''
                then integrity_then_config env name repo else Incomplete)"
  using assms
  by (simp add: check_download_status_def missing_essential_def essential_files_def)

lemma has_size_info_iff: "has_size_info file_sizes = (\<exists>p \<in> set file_sizes. 0 < snd p)"
  by (auto simp: has_size_info_def list_ex_iff)

text \<open>
  C4. When the index query is reached (the name is in the registry and the model
  directory exists) and it raises or returns the empty dictionary, no exception leaves
  the function, the comparison with the directory is skipped, and the status is the
  one of the process check: \<open>downloading\<close> or \<open>incomplete\<close>, never \<open>True\<close>.
\<close>

theorem C4_unavailable_index:
  assumes entry: "model_registry env name = Some info" "repo_id info = Some repo"
    and here: "get_model_path env name = Some dir"
    and index: "get_repo_file_list env repo = Inl e \<or> get_repo_file_list env repo = Inr []"
  shows "check_download_status env name = Inr (check_process env name) \<and>
         (check_download_status env name = Inr Downloading \<or>
          check_download_status env name = Inr Incomplete)"
  using status_without_index[OF assms] check_process_cases[of env name] by auto

theorem C4_unavailable_index_witness:
  "check_download_status
     \<lparr>model_registry = [''m'' \<mapsto> \<lparr>repo_id = Some ''org/m'', model_type = Some ''x'', variant = None\<rparr>],
      get_model_path = (\<lambda>n. Some (Dir 4096 [(''model_index.json'', File 10)])),
      get_repo_file_list = (\<lambda>r. Inl HubError),
      check_download_integrity = (\<lambda>n r. True),
      is_model_installed = (\<lambda>n. True),
      ps_aux = Inr ''ollamadiffuser pull m''\<rparr> ''m'' = Inr Downloading
   \<and> check_download_status
     \<lparr>model_registry = [''m'' \<mapsto> \<lparr>repo_id = Some ''org/m'', model_type = Some ''x'', variant = None\<rparr>],
      get_model_path = (\<lambda>n. Some (Dir 4096 [(''model_index.json'', File 10)])),
      get_repo_file_list = (\<lambda>r. Inr []),
      check_download_integrity = (\<lambda>n r. True),
      is_model_installed = (\<lambda>n. True),
      ps_aux = Inl HubError\<rparr> ''m'' = Inr Incomplete"
proof -
  let ?info = "\<lparr>repo_id = Some ''org/m'', model_type = Some ''x'', variant = None\<rparr>"
  let ?dir = "Dir 4096 [(''model_index.json'', File 10)]"
  let ?raising = "\<lparr>model_registry = [''m'' \<mapsto> ?info],
      get_model_path = (\<lambda>n. Some ?dir),
      get_repo_file_list = (\<lambda>r. Inl HubError),
      check_download_integrity = (\<lambda>n r. True),
      is_model_installed = (\<lambda>n. True),
      ps_aux = Inr ''ollamadiffuser pull m''\<rparr>"
  let ?empty = "\<lparr>model_registry = [''m'' \<mapsto> ?info],
      get_model_path = (\<lambda>n. Some ?dir),
      get_repo_file_list = (\<lambda>r. Inr []),
      check_download_integrity = (\<lambda>n r. True),
      is_model_installed = (\<lambda>n. True),
      ps_aux = Inl HubError\<rparr>"
  have "check_download_status ?raising ''m'' = Inr (check_process ?raising ''m'')"
    using C4_unavailable_index [of ?raising "''m''" ?info "''org/m''" ?dir HubError] by simp
  moreover have "check_download_status ?empty ''m'' = Inr (check_process ?empty ''m'')"
    using C4_unavailable_index [of ?empty "''m''" ?info "''org/m''" ?dir HubError] by simp
  ultimately show ?thesis by (simp add: check_process_def)
qed


text \<open>
  C2, as the code has it. Size information is available exactly when some listed size
  is positive. For a non-empty index without size information the structural check
  requires \<open>model_index.json\<close> alone: without it the status is \<open>incomplete\<close>,
  with it the status is the one the integrity helper and the configuration give, so a
  directory holding \<open>model_index.json\<close> that the helper accepts is complete
  (\<open>True\<close> or \<open>needs_config\<close>) although every declared size is zero.
\<close>

theorem C2_structural_fallback:
  assumes entry: "model_registry env name = Some info" "repo_id info = Some repo"
    and here: "get_model_path env name = Some dir"
    and index: "get_repo_file_list env repo = Inr file_sizes"
    and listed: "file_sizes \<noteq> []"
    and unsized: "\<not> has_size_info file_sizes"
  shows "(\<forall>sizes. has_size_info sizes = (\<exists>p \<in> set sizes. 0 < snd p)) \<and>
         check_download_status env name =
           Inr (if path_exists dir ''model_index.json''
                then integrity_then_config env name repo else Incomplete) \<and>
         (path_exists dir ''model_index.json'' \<and> check_download_integrity env name repo \<longrightarrow>
            check_download_status env name =
              Inr (if is_model_installed env name then Ret_True else Needs_config))"
proof -
  have "\<forall>sizes. has_size_info sizes = (\<exists>p \<in> set sizes. 0 < snd p)"
    by (simp add: has_size_info_iff)
  moreover note status_without_size_info[OF assms]
  ultimately show ?thesis by (simp add: integrity_then_config_def)
qed

theorem C2_structural_fallback_witness:
  "\<not> has_size_info [(''model_index.json'', 0), (''vae/config.json'', 0)]
   \<and> check_download_status
     (\<lparr>model_registry = [''m'' \<mapsto> \<lparr>repo_id = Some ''org/m'', model_type = Some ''x'', variant = None\<rparr>],
      get_model_path = (\<lambda>n. Some (Dir 4096 [(''model_index.json'', File 10)])),
      get_repo_file_list = (\<lambda>r. Inr [(''model_index.json'', 0), (''vae/config.json'', 0)]),
      check_download_integrity = (\<lambda>n r. True),
      is_model_installed = (\<lambda>n. True),
      ps_aux = Inr ''USER PID COMMAND''\<rparr>) ''m'' = Inr Ret_True"
proof -
  let ?fs = "[(''model_index.json'', 0), (''vae/config.json'', 0)]"
  let ?dir = "Dir 4096 [(''model_index.json'', File 10)]"
  let ?env = "\<lparr>model_registry = [''m'' \<mapsto> \<lparr>repo_id = Some ''org/m'', model_type = Some ''x'', variant = None\<rparr>],
      get_model_path = (\<lambda>n. Some (Dir 4096 [(''model_index.json'', File 10)])),
      get_repo_file_list = (\<lambda>r. Inr [(''model_index.json'', 0), (''vae/config.json'', 0)]),
      check_download_integrity = (\<lambda>n r. True),
      is_model_installed = (\<lambda>n. True),
      ps_aux = Inr ''USER PID COMMAND''\<rparr>"
  have unsized: "\<not> has_size_info ?fs" by (simp add: has_size_info_def)
  have present: "path_exists ?dir ''model_index.json''"
    by (simp add: path_exists_def path_lookup_def path_parts_examples)
  have "check_download_status ?env ''m'' =
          Inr (if is_model_installed ?env ''m'' then Ret_True else Needs_config)"
    using C2_structural_fallback [of ?env "''m''" "\<lparr>repo_id = Some ''org/m'', model_type = Some ''x'', variant = None\<rparr>" "''org/m''" ?dir ?fs,
        THEN conjunct2, THEN conjunct2, THEN mp] unsized present
    by simp
  with unsized show ?thesis by simp
qed

text \<open>
  C2 as stated fails twice. An empty index has no positive size, yet with every
  essential file and directory on disk the status is \<open>incomplete\<close>: the structural
  check is not reached. And with an index of zero sizes, a directory that holds
  \<open>model_index.json\<close> and none of the essential directories is reported \<open>True\<close>:
  the directories are listed for the user, not required.
\<close>

theorem C2_structural_fallback_counterexample:
  "\<not> has_size_info []
   \<and> missing_essential (Dir 4096 [(''model_index.json'', File 10), (''transformer'', Dir 4096 []),
        (''text_encoder'', Dir 4096 []), (''text_encoder_2'', Dir 4096 []),
        (''tokenizer'', Dir 4096 []), (''tokenizer_2'', Dir 4096 []),
        (''vae'', Dir 4096 []), (''scheduler'', Dir 4096 [])]) = []
   \<and> existing_dirs (Dir 4096 [(''model_index.json'', File 10), (''transformer'', Dir 4096 []),
        (''text_encoder'', Dir 4096 []), (''text_encoder_2'', Dir 4096 []),
        (''tokenizer'', Dir 4096 []), (''tokenizer_2'', Dir 4096 []),
        (''vae'', Dir 4096 []), (''scheduler'', Dir 4096 [])]) = essential_dirs
   \<and> check_download_status
     (\<lparr>model_registry = [''m'' \<mapsto> \<lparr>repo_id = Some ''org/m'', model_type = Some ''x'', variant = None\<rparr>],
      get_model_path = (\<lambda>n. Some (Dir 4096 [(''model_index.json'', File 10), (''transformer'', Dir 4096 []),
        (''text_encoder'', Dir 4096 []), (''text_encoder_2'', Dir 4096 []),
        (''tokenizer'', Dir 4096 []), (''tokenizer_2'', Dir 4096 []),
        (''vae'', Dir 4096 []), (''scheduler'', Dir 4096 [])])),
      get_repo_file_list = (\<lambda>r. Inr []),
      check_download_integrity = (\<lambda>n r. True),
      is_model_installed = (\<lambda>n. True),
      ps_aux = Inr ''USER PID COMMAND''\<rparr>) ''m'' = Inr Incomplete
   \<and> \<not> has_size_info [(''model_index.json'', 0), (''vae/config.json'', 0)]
   \<and> existing_dirs (Dir 4096 [(''model_index.json'', File 10)]) = []
   \<and> check_download_status
     (\<lparr>model_registry = [''m'' \<mapsto> \<lparr>repo_id = Some ''org/m'', model_type = Some ''x'', variant = None\<rparr>],
      get_model_path = (\<lambda>n. Some (Dir 4096 [(''model_index.json'', File 10)])),
      get_repo_file_list = (\<lambda>r. Inr [(''model_index.json'', 0), (''vae/config.json'', 0)]),
      check_download_integrity = (\<lambda>n r. True),
      is_model_installed = (\<lambda>n. True),
      ps_aux = Inr ''USER PID COMMAND''\<rparr>) ''m'' = Inr Ret_True"
  by (simp add: has_size_info_def missing_essential_def existing_dirs_def essential_files_def
      essential_dirs_def path_exists_def path_lookup_def path_parts_def
      check_download_status_def check_process_def integrity_then_config_def)


lemma status_true_only_if:
  assumes "check_download_status env name = Inr Ret_True"
  shows "\<exists>info repo dir file_sizes.
            model_registry env name = Some info \<and> repo_id info = Some repo \<and>
            get_model_path env name = Some dir \<and>
            get_repo_file_list env repo = Inr file_sizes \<and> file_sizes \<noteq> [] \<and>
            (if has_size_info file_sizes
              then missing_files dir file_sizes = [] \<and> incomplete_files dir file_sizes = []
              else missing_essential dir = []) \<and>
            check_download_integrity env name repo \<and>
            is_model_installed env name"
proof -
  from assms obtain info where i: "model_registry env name = Some info"
    by (auto simp: check_download_status_def split: option.splits)
  from assms i obtain repo where r: "repo_id info = Some repo"
    by (auto simp: check_download_status_def split: option.splits)
  from assms i r obtain dir where d: "get_model_path env name = Some dir"
    by (auto simp: check_download_status_def split: option.splits)
  have p: "check_process env name \<noteq> Ret_True"
    using check_process_cases[of env name] by auto
  from assms i r d p obtain file_sizes where
    f: "get_repo_file_list env repo = Inr file_sizes" "file_sizes \<noteq> []"
    by (cases "get_repo_file_list env repo")
       (auto simp: check_download_status_def split: if_splits)
  from assms i r d f have
    "(if has_size_info file_sizes
              then missing_files dir file_sizes = [] \<and> incomplete_files dir file_sizes = []
              else missing_essential dir = [])"
    "integrity_then_config env name repo = Ret_True"
    by (auto simp: check_download_status_def split: if_splits)
  then show ?thesis using i r d f
    by (auto simp: integrity_then_config_def split: if_splits)
qed

text \<open>
  C6, as the code has it. A name the registry does not hold gets \<open>False\<close> before
  any file is looked at. For a name the registry holds, whose files pass the
  comparison (or the structural check) and the integrity helper, the status is
  \<open>needs_config\<close> when \<open>is_model_installed\<close> is false and \<open>True\<close> when it is
  true. \<open>True\<close> is returned only when registry membership, complete files, the
  integrity helper and \<open>is_model_installed\<close> all hold.
\<close>

theorem C6_needs_config:
  "(model_registry env name = None \<longrightarrow> check_download_status env name = Inr Ret_False)
   \<and> (\<forall>info repo dir file_sizes.
          model_registry env name = Some info \<and> repo_id info = Some repo \<and>
            get_model_path env name = Some dir \<and>
            get_repo_file_list env repo = Inr file_sizes \<and> file_sizes \<noteq> [] \<and>
            (if has_size_info file_sizes
              then missing_files dir file_sizes = [] \<and> incomplete_files dir file_sizes = []
              else missing_essential dir = []) \<and>
            check_download_integrity env name repo \<longrightarrow>
          check_download_status env name =
            Inr (if is_model_installed env name then Ret_True else Needs_config))
   \<and> (check_download_status env name = Inr Ret_True \<longrightarrow>
         (\<exists>info repo dir file_sizes.
            model_registry env name = Some info \<and> repo_id info = Some repo \<and>
            get_model_path env name = Some dir \<and>
            get_repo_file_list env repo = Inr file_sizes \<and> file_sizes \<noteq> [] \<and>
            (if has_size_info file_sizes
              then missing_files dir file_sizes = [] \<and> incomplete_files dir file_sizes = []
              else missing_essential dir = []) \<and>
            check_download_integrity env name repo \<and>
            is_model_installed env name))"
proof (intro conjI allI impI)
  assume "model_registry env name = None"
  then show "check_download_status env name = Inr Ret_False"
    by (simp add: check_download_status_def)
next
  fix info repo dir file_sizes
  assume "model_registry env name = Some info \<and> repo_id info = Some repo \<and>
            get_model_path env name = Some dir \<and>
            get_repo_file_list env repo = Inr file_sizes \<and> file_sizes \<noteq> [] \<and>
            (if has_size_info file_sizes
              then missing_files dir file_sizes = [] \<and> incomplete_files dir file_sizes = []
              else missing_essential dir = []) \<and>
            check_download_integrity env name repo"
  then show "check_download_status env name =
            Inr (if is_model_installed env name then Ret_True else Needs_config)"
    by (auto simp: check_download_status_def integrity_then_config_def)
next
  assume "check_download_status env name = Inr Ret_True"
  then show "\<exists>info repo dir file_sizes.
            model_registry env name = Some info \<and> repo_id info = Some repo \<and>
            get_model_path env name = Some dir \<and>
            get_repo_file_list env repo = Inr file_sizes \<and> file_sizes \<noteq> [] \<and>
            (if has_size_info file_sizes
              then missing_files dir file_sizes = [] \<and> incomplete_files dir file_sizes = []
              else missing_essential dir = []) \<and>
            check_download_integrity env name repo \<and>
            is_model_installed env name"
    by (rule status_true_only_if)
qed

theorem C6_needs_config_witness:
  "check_download_status
     (\<lparr>model_registry = [''m'' \<mapsto> \<lparr>repo_id = Some ''org/m'', model_type = Some ''x'', variant = None\<rparr>],
      get_model_path = (\<lambda>n. Some (Dir 4096 [(''a.bin'', File 100), (''sub'', Dir 4096 [(''b.bin'', File 200)])])),
      get_repo_file_list = (\<lambda>r. Inr [(''a.bin'', 100), (''sub/b.bin'', 200)]),
      check_download_integrity = (\<lambda>n r. True),
      is_model_installed = (\<lambda>n. False),
      ps_aux = Inr ''USER PID COMMAND''\<rparr>) ''m'' = Inr Needs_config
   \<and> check_download_status
     (\<lparr>model_registry = Map.empty,
      get_model_path = (\<lambda>n. Some (Dir 4096 [(''a.bin'', File 100), (''sub'', Dir 4096 [(''b.bin'', File 200)])])),
      get_repo_file_list = (\<lambda>r. Inr [(''a.bin'', 100), (''sub/b.bin'', 200)]),
      check_download_integrity = (\<lambda>n r. True),
      is_model_installed = (\<lambda>n. False),
      ps_aux = Inr ''USER PID COMMAND''\<rparr>) ''m'' = Inr Ret_False"
proof -
  let ?fs = "[(''a.bin'', 100), (''sub/b.bin'', 200)]"
  let ?dir = "Dir 4096 [(''a.bin'', File 100), (''sub'', Dir 4096 [(''b.bin'', File 200)])]"
  let ?info = "\<lparr>repo_id = Some ''org/m'', model_type = Some ''x'', variant = None\<rparr>"
  let ?listed = "\<lparr>model_registry = [''m'' \<mapsto> \<lparr>repo_id = Some ''org/m'', model_type = Some ''x'', variant = None\<rparr>],
      get_model_path = (\<lambda>n. Some (Dir 4096 [(''a.bin'', File 100), (''sub'', Dir 4096 [(''b.bin'', File 200)])])),
      get_repo_file_list = (\<lambda>r. Inr [(''a.bin'', 100), (''sub/b.bin'', 200)]),
      check_download_integrity = (\<lambda>n r. True),
      is_model_installed = (\<lambda>n. False),
      ps_aux = Inr ''USER PID COMMAND''\<rparr>"
  let ?unlisted = "\<lparr>model_registry = Map.empty,
      get_model_path = (\<lambda>n. Some (Dir 4096 [(''a.bin'', File 100), (''sub'', Dir 4096 [(''b.bin'', File 200)])])),
      get_repo_file_list = (\<lambda>r. Inr [(''a.bin'', 100), (''sub/b.bin'', 200)]),
      check_download_integrity = (\<lambda>n r. True),
      is_model_installed = (\<lambda>n. False),
      ps_aux = Inr ''USER PID COMMAND''\<rparr>"
  have sized: "has_size_info ?fs" by (simp add: has_size_info_def)
  have whole: "missing_files ?dir ?fs = [] \<and> incomplete_files ?dir ?fs = []"
    by (simp add: missing_files_def incomplete_files_def path_lookup_def path_parts_examples)
  have "check_download_status ?listed ''m'' =
          Inr (if is_model_installed ?listed ''m'' then Ret_True else Needs_config)"
    using C6_needs_config [of ?listed "''m''", THEN conjunct2, THEN conjunct1,
        THEN spec [of _ ?info], THEN spec [of _ "''org/m''"], THEN spec [of _ ?dir],
        THEN spec [of _ ?fs], THEN mp] sized whole
    by simp
  moreover have "check_download_status ?unlisted ''m'' = Inr Ret_False"
    using C6_needs_config [of ?unlisted "''m''", THEN conjunct1, THEN mp] by simp
  ultimately show ?thesis by simp
qed

text \<open>
  C6 as stated fails: with every expected file present at its declared size and a
  name the registry does not hold, the status is \<open>False\<close>, not \<open>needs_config\<close>.
\<close>

theorem C6_needs_config_counterexample:
  "model_registry
     (\<lparr>model_registry = Map.empty,
      get_model_path = (\<lambda>n. Some (Dir 4096 [(''a.bin'', File 100), (''sub'', Dir 4096 [(''b.bin'', File 200)])])),
      get_repo_file_list = (\<lambda>r. Inr [(''a.bin'', 100), (''sub/b.bin'', 200)]),
      check_download_integrity = (\<lambda>n r. True),
      is_model_installed = (\<lambda>n. False),
      ps_aux = Inr ''USER PID COMMAND''\<rparr>) ''m'' = None
   \<and> missing_files (Dir 4096 [(''a.bin'', File 100), (''sub'', Dir 4096 [(''b.bin'', File 200)])]) [(''a.bin'', 100), (''sub/b.bin'', 200)] = []
   \<and> incomplete_files (Dir 4096 [(''a.bin'', File 100), (''sub'', Dir 4096 [(''b.bin'', File 200)])]) [(''a.bin'', 100), (''sub/b.bin'', 200)] = []
   \<and> check_download_status
     (\<lparr>model_registry = Map.empty,
      get_model_path = (\<lambda>n. Some (Dir 4096 [(''a.bin'', File 100), (''sub'', Dir 4096 [(''b.bin'', File 200)])])),
      get_repo_file_list = (\<lambda>r. Inr [(''a.bin'', 100), (''sub/b.bin'', 200)]),
      check_download_integrity = (\<lambda>n r. True),
      is_model_installed = (\<lambda>n. False),
      ps_aux = Inr ''USER PID COMMAND''\<rparr>) ''m'' = Inr Ret_False
   \<and> check_download_status
     (\<lparr>model_registry = Map.empty,
      get_model_path = (\<lambda>n. Some (Dir 4096 [(''a.bin'', File 100), (''sub'', Dir 4096 [(''b.bin'', File 200)])])),
      get_repo_file_list = (\<lambda>r. Inr [(''a.bin'', 100), (''sub/b.bin'', 200)]),
      check_download_integrity = (\<lambda>n r. True),
      is_model_installed = (\<lambda>n. False),
      ps_aux = Inr ''USER PID COMMAND''\<rparr>) ''m'' \<noteq> Inr Needs_config"
  by (simp add: missing_files_def incomplete_files_def path_lookup_def path_parts_def
      check_download_status_def)

section \<open>The download monitor and the directory scans\<close>

lemma calculate_speed_returns:
  "calculate_speed m now current_size =
     Inr (if 0 < now - last_check_time m \<and> 0 < last_size m
          then of_int (current_size - last_size m) / (now - last_check_time m) else 0)"
  by (simp add: calculate_speed_def truediv_def Let_def)

lemma estimate_remaining_time_returns:
  "estimate_remaining_time current_size speed target_size =
     Inr (if speed \<le> 0 then Unknown
          else Remaining (of_int (max 0 ((case target_size of None \<Rightarrow> default_target_size
                                          | Some t \<Rightarrow> t) - current_size)) / speed))"
  by (simp add: estimate_remaining_time_def truediv_def Let_def)

lemma progress_percent_returns: "\<exists>bar. progress_percent current_size = Inr bar"
  by (simp add: progress_percent_def truediv_def default_target_size_def)

lemma display_progress_returns:
  "\<exists>report. display_progress m clock model_dir =
     Inr (report, update_monitor m clock (get_total_downloaded_size model_dir))"
proof -
  obtain bar where "progress_percent (get_total_downloaded_size model_dir) = Inr bar"
    using progress_percent_returns by blast
  then show ?thesis
    by (simp add: display_progress_def Let_def calculate_speed_returns
        estimate_remaining_time_returns)
qed

lemma display_progress_hides_speed:
  assumes "display_progress m clock model_dir = Inr (report, m')"
    and "now_speed clock - last_check_time m \<le> 0 \<or> last_size m \<le> 0"
  shows "speed_line report = None \<and> eta_line report = None"
proof -
  obtain bar where "progress_percent (get_total_downloaded_size model_dir) = Inr bar"
    using progress_percent_returns by blast
  with assms show ?thesis
    by (auto simp: display_progress_def Let_def calculate_speed_returns)
qed

lemma history_step:
  assumes "length h \<le> 10"
  shows "(if 10 < length (h @ [s]) then tl (h @ [s]) else h @ [s]) =
         drop (length h + 1 - 10) (h @ [s])"
proof (cases "length h = 10")
  case True
  then have "h \<noteq> []" by auto
  with True show ?thesis by (simp add: drop_Suc)
next
  case False
  with assms have "length h < 10" by simp
  then show ?thesis by simp
qed

lemma update_monitor_history:
  assumes "length (size_history m) \<le> 10"
  shows "size_history (update_monitor m clock current_size) =
         drop (length (size_history m) + 1 - 10) (size_history m @ [(now_sample clock, current_size)])"
  using history_step[OF assms] by (simp add: update_monitor_def Let_def)

lemma window_step:
  assumes "length h \<le> 10"
  shows "drop (length (drop (length h + 1 - 10) (h @ [s])) + n - 10)
              (drop (length h + 1 - 10) (h @ [s]) @ xs) =
         drop (length h + Suc n - 10) (h @ s # xs)"
proof (cases "length h = 10")
  case True
  then obtain a t where h: "h = a # t" by (cases h) auto
  with True have "length t = 9" by simp
  then show ?thesis by (simp add: h)
next
  case False
  with assms have "length h < 10" by simp
  then show ?thesis by simp
qed

lemma run_updates_history:
  assumes "length (size_history m) \<le> 10"
  shows "\<exists>m'. run_updates m observations = Inr m' \<and>
           size_history m' =
             drop (length (size_history m) + length observations - 10)
                  (size_history m @ map sample_of observations)"
  using assms
proof (induction observations arbitrary: m)
  case Nil
  then show ?case by simp
next
  case (Cons ob obs)
  obtain clock model_dir where ob: "ob = (clock, model_dir)" by (cases ob)
  let ?m1 = "update_monitor m clock (get_total_downloaded_size model_dir)"
  let ?h = "size_history m"
  let ?s = "(now_sample clock, get_total_downloaded_size model_dir)"
  obtain report where step: "display_progress m clock model_dir = Inr (report, ?m1)"
    using display_progress_returns by blast
  have h1: "size_history ?m1 = drop (length ?h + 1 - 10) (?h @ [?s])"
    by (rule update_monitor_history[OF Cons.prems])
  then have len1: "length (size_history ?m1) \<le> 10"
    using Cons.prems by simp
  from Cons.IH[OF len1] obtain m' where
    run: "run_updates ?m1 obs = Inr m'" and
    hist: "size_history m' =
             drop (length (size_history ?m1) + length obs - 10)
                  (size_history ?m1 @ map sample_of obs)"
    by blast
  have "size_history m' = drop (length ?h + Suc (length obs) - 10) (?h @ ?s # map sample_of obs)"
    unfolding hist h1 by (rule window_step[OF Cons.prems])
  moreover have "sample_of ob = ?s" by (simp add: ob sample_of_def)
  ultimately show ?case using run step by (simp add: ob)
qed

text \<open>
  C10. Every call of \<open>display_progress\<close> appends one sample to the history and
  then drops the oldest one if more than 10 are held: a history of at most 10 samples
  stays at most 10 long and keeps its order, a full history loses its first sample,
  and after any number of calls on a new monitor the history is the last 10 samples
  observed (all of them when there are fewer), in the order of observation.
\<close>

theorem C10_history_bounded:
  "(\<forall>report m'.
      display_progress m clock model_dir = Inr (report, m') \<and> length (size_history m) \<le> 10 \<longrightarrow>
      length (size_history m') \<le> 10 \<and>
      size_history m' =
        drop (length (size_history m) + 1 - 10)
             (size_history m @ [(now_sample clock, get_total_downloaded_size model_dir)]) \<and>
      (length (size_history m) = 10 \<longrightarrow>
         size_history m' =
           tl (size_history m) @ [(now_sample clock, get_total_downloaded_size model_dir)]))
   \<and> (\<exists>m'. run_updates (new_monitor t0 t1) observations = Inr m' \<and>
           length (size_history m') \<le> 10 \<and>
           size_history m' = drop (length observations - 10) (map sample_of observations))"
proof (intro conjI allI impI)
  fix report m'
  assume a: "display_progress m clock model_dir = Inr (report, m') \<and> length (size_history m) \<le> 10"
  let ?h = "size_history m"
  let ?s = "(now_sample clock, get_total_downloaded_size model_dir)"
  from a display_progress_returns[of m clock model_dir]
  have m': "m' = update_monitor m clock (get_total_downloaded_size model_dir)" by auto
  from a have h: "size_history m' = drop (length ?h + 1 - 10) (?h @ [?s])"
    unfolding m' by (intro update_monitor_history) simp
  with a show "length (size_history m') \<le> 10" by simp
  from h show "size_history m' = drop (length ?h + 1 - 10) (?h @ [?s])" .
  assume "length ?h = 10"
  moreover from this have "?h \<noteq> []" by auto
  ultimately show "size_history m' = tl ?h @ [?s]"
    using h by (simp add: drop_Suc)
next
  have "length (size_history (new_monitor t0 t1)) \<le> 10" by (simp add: new_monitor_def)
  from run_updates_history[OF this, of observations] obtain m' where
    "run_updates (new_monitor t0 t1) observations = Inr m'"
    "size_history m' = drop (length observations - 10) (map sample_of observations)"
    by (auto simp: new_monitor_def)
  then show "\<exists>m'. run_updates (new_monitor t0 t1) observations = Inr m' \<and>
           length (size_history m') \<le> 10 \<and>
           size_history m' = drop (length observations - 10) (map sample_of observations)"
    by auto
qed


lemma total_size_examples:
  "get_total_downloaded_size (Some (Dir 4096 [(''w.bin'', File n)])) = n"
  "get_total_downloaded_size (Some (Dir 4096 [(''w.bin'', File n), (''w.bin.lock'', File l)])) = n"
  by (simp_all add: get_total_downloaded_size_def endswith_def)

theorem C10_history_bounded_witness:
  "(\<exists>report m'.
      display_progress
        \<lparr>start_time = 0, last_size = 5, last_check_time = 10,
        size_history = [(1, 5), (2, 5), (3, 5), (4, 5), (5, 5), (6, 5), (7, 5), (8, 5), (9, 5), (10, 5)]\<rparr>
        \<lparr>now_speed = 11, now_check = 11, now_sample = 11\<rparr>
        (Some (Dir 4096 [(''w.bin'', File 7), (''w.bin.lock'', File 0)])) = Inr (report, m') \<and>
      size_history m' = [(2, 5), (3, 5), (4, 5), (5, 5), (6, 5), (7, 5), (8, 5), (9, 5), (10, 5), (11, 7)])
   \<and> (\<exists>m'. run_updates (new_monitor 0 0)
            (map (\<lambda>k. (\<lparr>now_speed = of_nat k, now_check = of_nat k, now_sample = of_nat k\<rparr>,
                  Some (Dir 4096 [(''w.bin'', File (int k))])))
             [1, 2, 3, 4, 5, 6, 7, 8, 9, 10, 11, 12]) = Inr m' \<and>
          size_history m' = [(3, 3), (4, 4), (5, 5), (6, 6), (7, 7), (8, 8), (9, 9), (10, 10), (11, 11), (12, 12)])"
proof -
  let ?m = "\<lparr>start_time = 0, last_size = 5, last_check_time = 10,
        size_history = [(1, 5), (2, 5), (3, 5), (4, 5), (5, 5), (6, 5), (7, 5), (8, 5), (9, 5), (10, 5)]\<rparr>"
  let ?c = "\<lparr>now_speed = 11, now_check = 11, now_sample = 11\<rparr>"
  let ?d = "Some (Dir 4096 [(''w.bin'', File 7), (''w.bin.lock'', File 0)])"
  let ?obs = "map (\<lambda>k. (\<lparr>now_speed = of_nat k, now_check = of_nat k, now_sample = of_nat k\<rparr>,
                  Some (Dir 4096 [(''w.bin'', File (int k))])))
             [1, 2, 3, 4, 5, 6, 7, 8, 9, 10, 11, 12]"
  obtain report m' where step: "display_progress ?m ?c ?d = Inr (report, m')"
    using display_progress_returns by blast
  have "size_history m' = tl (size_history ?m) @ [(now_sample ?c, get_total_downloaded_size ?d)]"
    using C10_history_bounded [of ?m ?c ?d, THEN conjunct1, THEN spec [of _ report],
        THEN spec [of _ m'], THEN mp] step
    by simp
  then have one: "size_history m' = [(2, 5), (3, 5), (4, 5), (5, 5), (6, 5), (7, 5), (8, 5), (9, 5), (10, 5), (11, 7)]"
    by (simp add: total_size_examples)
  obtain m'' where run: "run_updates (new_monitor 0 0) ?obs = Inr m''"
    and hist: "size_history m'' = drop (length ?obs - 10) (map sample_of ?obs)"
    using C10_history_bounded [of ?m ?c ?d 0 0 ?obs, THEN conjunct2] by blast
  from hist have "size_history m'' = [(3, 3), (4, 4), (5, 5), (6, 6), (7, 7), (8, 8), (9, 9), (10, 10), (11, 11), (12, 12)]"
    by (simp add: sample_of_def total_size_examples)
  with run one step show ?thesis by blast
qed


lemma run_updates_returns: "\<exists>m'. run_updates m observations = Inr m'"
proof (induction observations arbitrary: m)
  case Nil
  show ?case by simp
next
  case (Cons ob obs)
  obtain clock model_dir where ob: "ob = (clock, model_dir)" by (cases ob)
  obtain report where
    "display_progress m clock model_dir =
       Inr (report, update_monitor m clock (get_total_downloaded_size model_dir))"
    using display_progress_returns by blast
  with Cons.IH show ?case by (simp add: ob)
qed

text \<open>
  C5, as the code has it. No call divides by zero: \<open>calculate_speed\<close>,
  \<open>estimate_remaining_time\<close>, \<open>display_progress\<close> and any number of iterations of
  the loop return without \<open>ZeroDivisionError\<close>. When the elapsed time is not positive
  or the last size is not positive (as on a new monitor, which has no earlier sample)
  the speed is 0 and neither a speed nor an ETA line is shown. The ETA is
  \<open>"Unknown"\<close> whenever the speed is zero or less. When no target size is given the
  remaining size is taken against a fixed estimate of 23 GiB and the ETA is computed
  from it.
\<close>

theorem C5_no_division_by_zero:
  "(\<exists>speed. calculate_speed m now current_size = Inr speed)
   \<and> (now - last_check_time m \<le> 0 \<or> last_size m \<le> 0 \<longrightarrow>
         calculate_speed m now current_size = Inr 0)
   \<and> calculate_speed (new_monitor t0 t1) now current_size = Inr 0
   \<and> (\<exists>t. estimate_remaining_time current_size speed target_size = Inr t)
   \<and> (speed \<le> 0 \<longrightarrow>
         estimate_remaining_time current_size speed target_size = Inr Unknown)
   \<and> (0 < speed \<longrightarrow>
         estimate_remaining_time current_size speed None =
           Inr (Remaining (of_int (max 0 (default_target_size - current_size)) / speed)))
   \<and> (\<exists>report m'. display_progress m clock model_dir = Inr (report, m'))
   \<and> (\<forall>report m'.
         display_progress m clock model_dir = Inr (report, m') \<and>
         (now_speed clock - last_check_time m \<le> 0 \<or> last_size m \<le> 0) \<longrightarrow>
         speed_line report = None \<and> eta_line report = None)
   \<and> (\<exists>m'. run_updates m observations = Inr m')"
proof -
  have "\<exists>report m'. display_progress m clock model_dir = Inr (report, m')"
    using display_progress_returns by blast
  moreover have "\<forall>report m'.
         display_progress m clock model_dir = Inr (report, m') \<and>
         (now_speed clock - last_check_time m \<le> 0 \<or> last_size m \<le> 0) \<longrightarrow>
         speed_line report = None \<and> eta_line report = None"
    using display_progress_hides_speed by blast
  moreover have "calculate_speed (new_monitor t0 t1) now current_size = Inr 0"
    by (simp add: calculate_speed_returns new_monitor_def)
  moreover have "now - last_check_time m \<le> 0 \<or> last_size m \<le> 0 \<longrightarrow>
         calculate_speed m now current_size = Inr 0"
    by (auto simp: calculate_speed_returns)
  ultimately show ?thesis
    using run_updates_returns[of m observations]
    by (simp add: calculate_speed_returns estimate_remaining_time_returns)
qed

theorem C5_no_division_by_zero_witness:
  "calculate_speed \<lparr>start_time = 0, last_size = 50, last_check_time = 10, size_history = []\<rparr>
     10 100 = Inr 0
   \<and> calculate_speed \<lparr>start_time = 0, last_size = 50, last_check_time = 10, size_history = []\<rparr>
     12 100 = Inr 25
   \<and> estimate_remaining_time 100 0 (Some 200) = Inr Unknown
   \<and> estimate_remaining_time 100 25 (Some 200) = Inr (Remaining 4)
   \<and> estimate_remaining_time 0 1024 None = Inr (Remaining 24117248)
   \<and> (\<exists>m'. display_progress
           \<lparr>start_time = 0, last_size = 50, last_check_time = 10, size_history = []\<rparr>
           \<lparr>now_speed = 10, now_check = 10, now_sample = 10\<rparr>
           (Some (Dir 4096 [(''w.bin'', File 100)])) =
         Inr (\<lparr>downloaded = 100, speed_line = None, eta_line = None,
                progress_line = Some (625 / 1543503872)\<rparr>, m'))"
proof -
  let ?m = "\<lparr>start_time = 0, last_size = 50, last_check_time = 10, size_history = []\<rparr>"
  let ?c = "\<lparr>now_speed = 10, now_check = 10, now_sample = 10\<rparr>"
  let ?d = "Some (Dir 4096 [(''w.bin'', File 100)])"
  have a: "calculate_speed ?m 10 100 = Inr 0"
    using C5_no_division_by_zero [of ?m 10 100, THEN conjunct2, THEN conjunct1, THEN mp]
    by simp
  have b: "estimate_remaining_time 100 0 (Some 200) = Inr Unknown"
    using C5_no_division_by_zero [where current_size = 100 and speed = 0
        and target_size = "Some 200", THEN conjunct2,
        THEN conjunct2, THEN conjunct2, THEN conjunct2, THEN conjunct1, THEN mp]
    by simp
  have c: "estimate_remaining_time 0 1024 None = Inr (Remaining 24117248)"
    using C5_no_division_by_zero [where current_size = 0 and speed = 1024, THEN conjunct2,
        THEN conjunct2, THEN conjunct2, THEN conjunct2, THEN conjunct2, THEN conjunct1, THEN mp]
    by (simp add: default_target_size_def)
  have d: "\<exists>m'. display_progress ?m ?c ?d =
         Inr (\<lparr>downloaded = 100, speed_line = None, eta_line = None,
                progress_line = Some (625 / 1543503872)\<rparr>, m')"
    by (simp add: display_progress_def Let_def calculate_speed_returns total_size_examples
        progress_percent_def truediv_def default_target_size_def)
  have e: "calculate_speed ?m 12 100 = Inr 25"
    by (simp add: calculate_speed_returns)
  have f: "estimate_remaining_time 100 25 (Some 200) = Inr (Remaining 4)"
    by (simp add: estimate_remaining_time_returns)
  from a b c d e f show ?thesis by blast
qed

text \<open>
  C5 as stated fails where the remaining size cannot be determined: called without a
  target size and with a positive speed, \<open>estimate_remaining_time\<close> does not answer
  \<open>"Unknown"\<close> but the time 23 GiB would take.
\<close>

theorem C5_no_division_by_zero_counterexample:
  "estimate_remaining_time 0 1024 None = Inr (Remaining 24117248)
   \<and> estimate_remaining_time 0 1024 None \<noteq> Inr Unknown"
  by (simp add: estimate_remaining_time_returns default_target_size_def)

lemma foldl_scan_total:
  "foldl (\<lambda>total (parent, name, node). if keep name node then total + st_size node else total)
         acc entries =
   acc + sum_list (map (\<lambda>(parent, name, node). st_size node)
                    (filter (\<lambda>(parent, name, node). keep name node) entries))"
  by (induction entries arbitrary: acc) (auto split: prod.splits)

lemma monitor_total_excludes_locks:
  "get_total_downloaded_size (Some dir) =
     sum_list (map (\<lambda>(parent, name, node). st_size node)
                (filter (\<lambda>(parent, name, node). is_file node \<and> \<not> endswith name ''.lock'')
                        (rglob [] dir)))"
  using foldl_scan_total[of "\<lambda>name node. is_file node \<and> \<not> endswith name ''.lock''" 0 "rglob [] dir"]
  by (simp add: get_total_downloaded_size_def)

lemma foldl_scan_files:
  "foldl (\<lambda>(local_files, local_size) (parent, name, node).
            if is_file node
            then (local_files @ [(join_path (parent @ [name]), st_size node)],
                  local_size + st_size node)
            else (local_files, local_size))
         (files, size_so_far) entries =
   (files @ map (\<lambda>(parent, name, node). (join_path (parent @ [name]), st_size node))
                (filter (\<lambda>(parent, name, node). is_file node) entries),
    size_so_far + sum_list (map (\<lambda>(parent, name, node). st_size node)
                       (filter (\<lambda>(parent, name, node). is_file node) entries)))"
  by (induction entries arbitrary: files size_so_far) (auto split: prod.splits)

lemma local_scan_counts_every_file:
  "local_scan dir =
     (map (\<lambda>(parent, name, node). (join_path (parent @ [name]), st_size node))
          (filter (\<lambda>(parent, name, node). is_file node) (rglob [] dir)),
      sum_list (map (\<lambda>(parent, name, node). st_size node)
                 (filter (\<lambda>(parent, name, node). is_file node) (rglob [] dir))))"
  using foldl_scan_files[of "[]" 0 "rglob [] dir"] by (simp add: local_scan_def)

text \<open>
  C9. The scan of \<open>check_download_status\<close> (lines 78-86) lists and sums every
  regular file: a lock file below the model directory is counted among the files and
  in the total, while the monitor's scan of the same directory leaves it out.
\<close>

theorem C9_lock_file_counted:
  "local_scan
     (Dir 4096 [(''model.bin'', File 100),
                (''.cache'', Dir 4096 [(''huggingface'', Dir 4096 [(''download'',
                   Dir 4096 [(''model.bin.lock'', File 1)])])])]) =
     ([(''model.bin'', 100), (''.cache/huggingface/download/model.bin.lock'', 1)], 101)
   \<and> get_total_downloaded_size
     (Some (Dir 4096 [(''model.bin'', File 100),
                (''.cache'', Dir 4096 [(''huggingface'', Dir 4096 [(''download'',
                   Dir 4096 [(''model.bin.lock'', File 1)])])])])) = 100"
  by (simp add: local_scan_def get_total_downloaded_size_def endswith_def)

section \<open>Properties of the model registry\<close>

lemma get_model_cases:
  "get_model r name =
     (case runtime r name of
        Some d \<Rightarrow> Some d
      | None \<Rightarrow> (case file_configured r name of
                   Some d \<Rightarrow> Some d
                 | None \<Rightarrow> builtin r name))"
  by (simp add: get_model_def split: option.splits)

lemma get_model_None_iff:
  "get_model r name = None \<longleftrightarrow>
     runtime r name = None \<and> file_configured r name = None \<and> builtin r name = None"
  by (simp add: get_model_cases split: option.splits)

lemma tier_map_set_tier_map:
  "tier_map (set_tier_map r t m) t' = (if t' = t then m else tier_map r t')"
  by (cases t; cases t') simp_all

lemma set_tier_map_same: "set_tier_map r t (tier_map r t) = r"
  by (cases t) simp_all

lemma set_tier_map_twice: "set_tier_map (set_tier_map r t m) t m' = set_tier_map r t m'"
  by (cases t) simp_all

lemma above_runtime: "\<not> precedence Runtime < precedence t'"
  by (cases t') simp_all

lemma above_file_configured: "precedence File_configured < precedence t' \<Longrightarrow> t' = Runtime"
  by (cases t') simp_all

lemma above_builtin:
  "precedence Builtin < precedence t' \<Longrightarrow> t' = File_configured \<or> t' = Runtime"
  by (cases t') simp_all

lemma get_model_highest:
  "get_model r name = Some d \<longleftrightarrow>
     (\<exists>t. tier_map r t name = Some d \<and>
          (\<forall>t'. precedence t < precedence t' \<longrightarrow> tier_map r t' name = None))"
proof
  assume g: "get_model r name = Some d"
  show "\<exists>t. tier_map r t name = Some d \<and>
          (\<forall>t'. precedence t < precedence t' \<longrightarrow> tier_map r t' name = None)"
  proof (cases "runtime r name")
    case (Some a)
    with g have "tier_map r Runtime name = Some d" by (simp add: get_model_cases)
    then show ?thesis using above_runtime by blast
  next
    case None
    show ?thesis
    proof (cases "file_configured r name")
      case (Some a)
      with g None have "tier_map r File_configured name = Some d" by (simp add: get_model_cases)
      moreover from None have "tier_map r Runtime name = None" by simp
      ultimately show ?thesis using above_file_configured by blast
    next
      case fnone: None
      with g None have "tier_map r Builtin name = Some d" by (simp add: get_model_cases)
      moreover from None fnone have
        "tier_map r Runtime name = None" "tier_map r File_configured name = None" by simp_all
      ultimately show ?thesis using above_builtin by blast
    qed
  qed
next
  assume "\<exists>t. tier_map r t name = Some d \<and>
          (\<forall>t'. precedence t < precedence t' \<longrightarrow> tier_map r t' name = None)"
  then obtain t where t: "tier_map r t name = Some d"
    and top: "\<forall>t'. precedence t < precedence t' \<longrightarrow> tier_map r t' name = None" by blast
  show "get_model r name = Some d"
  proof (cases t)
    case Builtin
    from top[rule_format, of File_configured] top[rule_format, of Runtime] Builtin
    have "file_configured r name = None" "runtime r name = None" by simp_all
    with t Builtin show ?thesis by (simp add: get_model_cases)
  next
    case File_configured
    from top[rule_format, of Runtime] File_configured
    have "runtime r name = None" by simp
    with t File_configured show ?thesis by (simp add: get_model_cases)
  next
    case Runtime
    with t show ?thesis by (simp add: get_model_cases)
  qed
qed

text \<open>
  C3. Lookup returns the descriptor of the highest tier that holds the name: an entry
  of the file-configured tier hides the builtin one (so the \<open>repo_id\<close> read is the
  file-configured one where the two differ), an entry of the runtime tier hides both,
  and the same holds when the entries are put there by \<open>add\<close>.
\<close>

theorem C3_tier_precedence:
  "(get_model r name = Some d \<longleftrightarrow>
      (\<exists>t. tier_map r t name = Some d \<and>
           (\<forall>t'. precedence t < precedence t' \<longrightarrow> tier_map r t' name = None)))
   \<and> (builtin r name = Some d0 \<and> file_configured r name = Some d1 \<and> runtime r name = None \<longrightarrow>
         get_model r name = Some d1 \<and>
         map_option repo_id (get_model r name) = Some (repo_id d1) \<and>
         (repo_id d0 \<noteq> repo_id d1 \<longrightarrow>
            map_option repo_id (get_model r name) \<noteq> Some (repo_id d0)))
   \<and> (runtime r name = Some d2 \<longrightarrow> get_model r name = Some d2)
   \<and> (repo_id d1 \<noteq> None \<and> model_type d1 \<noteq> None \<and> runtime r name = None \<longrightarrow>
         get_model (snd (add_model r name d1 File_configured)) name = Some d1)
   \<and> (repo_id d2 \<noteq> None \<and> model_type d2 \<noteq> None \<longrightarrow>
         get_model (snd (add_model r name d2 Runtime)) name = Some d2)"
  using get_model_highest[of r name d]
  by (auto simp: get_model_cases add_model_def)


theorem C3_tier_precedence_witness:
  "map_option repo_id
     (get_model
        \<lparr>builtin = [''sd'' \<mapsto> \<lparr>repo_id = Some ''a/sd'', model_type = Some ''sdxl'', variant = None\<rparr>],
        file_configured = [''sd'' \<mapsto> \<lparr>repo_id = Some ''b/sd'', model_type = Some ''sdxl'', variant = None\<rparr>],
        runtime = Map.empty\<rparr> ''sd'') = Some (Some ''b/sd'')
   \<and> map_option repo_id
     (get_model
        (snd (add_model
           \<lparr>builtin = [''sd'' \<mapsto> \<lparr>repo_id = Some ''a/sd'', model_type = Some ''sdxl'', variant = None\<rparr>],
        file_configured = [''sd'' \<mapsto> \<lparr>repo_id = Some ''b/sd'', model_type = Some ''sdxl'', variant = None\<rparr>],
        runtime = Map.empty\<rparr> ''sd''
           \<lparr>repo_id = Some ''c/sd'', model_type = Some ''sdxl'', variant = None\<rparr> Runtime)) ''sd'') = Some (Some ''c/sd'')"
proof -
  let ?r = "\<lparr>builtin = [''sd'' \<mapsto> \<lparr>repo_id = Some ''a/sd'', model_type = Some ''sdxl'', variant = None\<rparr>],
        file_configured = [''sd'' \<mapsto> \<lparr>repo_id = Some ''b/sd'', model_type = Some ''sdxl'', variant = None\<rparr>],
        runtime = Map.empty\<rparr>"
  let ?a = "\<lparr>repo_id = Some ''a/sd'', model_type = Some ''sdxl'', variant = None\<rparr>"
  let ?b = "\<lparr>repo_id = Some ''b/sd'', model_type = Some ''sdxl'', variant = None\<rparr>"
  let ?c = "\<lparr>repo_id = Some ''c/sd'', model_type = Some ''sdxl'', variant = None\<rparr>"
  note precedence_at = C3_tier_precedence [of ?r "''sd''" ?b ?a ?b ?c]
  have "map_option repo_id (get_model ?r ''sd'') = Some (repo_id ?b)"
    using precedence_at [THEN conjunct2, THEN conjunct1, THEN mp] by simp
  moreover have "get_model (snd (add_model ?r ''sd'' ?c Runtime)) ''sd'' = Some ?c"
    using precedence_at [THEN conjunct2, THEN conjunct2, THEN conjunct2, THEN conjunct2, THEN mp]
    by simp
  ultimately show ?thesis by simp
qed

lemma supplying_tier_None_iff:
  "supplying_tier r name = None \<longleftrightarrow> (\<forall>t. tier_map r t name = None)"
proof
  assume "supplying_tier r name = None"
  then have "runtime r name = None" "file_configured r name = None" "builtin r name = None"
    by (auto simp: supplying_tier_def split: if_splits)
  then show "\<forall>t. tier_map r t name = None"
    by (intro allI, case_tac t) simp_all
next
  assume a: "\<forall>t. tier_map r t name = None"
  from a[rule_format, of Runtime] a[rule_format, of File_configured] a[rule_format, of Builtin]
  show "supplying_tier r name = None" by (simp add: supplying_tier_def)
qed

lemma supplying_tier_supplies:
  assumes "supplying_tier r name = Some t"
  shows "tier_map r t name \<noteq> None \<and> get_model r name = tier_map r t name"
  using assms by (auto simp: supplying_tier_def get_model_cases split: if_splits)

lemma remove_model_supplied:
  assumes "supplying_tier r name = Some t"
  shows "fst (remove_model r name) \<and>
         tier_map (snd (remove_model r name)) t name = None \<and>
         (\<forall>t' n. (t', n) \<noteq> (t, name) \<longrightarrow>
            tier_map (snd (remove_model r name)) t' n = tier_map r t' n)"
  using assms by (auto simp: remove_model_def tier_map_set_tier_map)

lemma add_then_remove:
  assumes "get_model r name = None"
  shows "remove_model (snd (add_model r name d tier)) name = (fst (add_model r name d tier), r)"
proof (cases "repo_id d = None \<or> model_type d = None")
  case True
  from assms have "supplying_tier r name = None"
    by (simp add: get_model_None_iff supplying_tier_def)
  with True show ?thesis by (simp add: add_model_def remove_model_def)
next
  case False
  let ?r1 = "set_tier_map r tier ((tier_map r tier)(name \<mapsto> d))"
  from assms have absent: "runtime r name = None" "file_configured r name = None"
    "builtin r name = None" by (simp_all add: get_model_None_iff)
  then have held: "tier_map r tier name = None" by (cases tier) simp_all
  from absent have "supplying_tier ?r1 name = Some tier"
    by (cases tier) (simp_all add: supplying_tier_def)
  then have "remove_model ?r1 name =
      (True, set_tier_map ?r1 tier ((tier_map ?r1 tier)(name := None)))"
    by (simp add: remove_model_def)
  also have "set_tier_map ?r1 tier ((tier_map ?r1 tier)(name := None)) = r"
    using held
    by (simp add: tier_map_set_tier_map set_tier_map_twice fun_upd_idem set_tier_map_same)
  finally have "remove_model ?r1 name = (True, r)" .
  moreover from False have "add_model r name d tier = (True, ?r1)"
    by (simp add: add_model_def)
  ultimately show ?thesis by (simp only: fst_conv snd_conv)
qed

lemma remove_reveals_lower_tier:
  assumes "builtin r name = Some d0" "file_configured r name = None" "runtime r name = None"
    and "repo_id d \<noteq> None" "model_type d \<noteq> None"
  shows "get_model (snd (remove_model (snd (add_model r name d Runtime)) name)) name = Some d0"
  using assms
  by (auto simp: add_model_def remove_model_def supplying_tier_def get_model_cases)

text \<open>
  C8. For a name that is not found, \<open>add\<close> followed by \<open>remove\<close> gives back the
  registry as it was: the name is not found again and is not among the names listed;
  with a valid descriptor both calls succeed and in between the name is found and
  listed. \<open>remove\<close> deletes the entry of the tier that supplies the visible entry and
  nothing else, and returns false, changing nothing, when no tier holds the name.
\<close>

theorem C8_add_then_remove:
  "(get_model r name = None \<longrightarrow>
      (repo_id d \<noteq> None \<and> model_type d \<noteq> None \<longrightarrow>
         fst (add_model r name d tier) \<and>
         get_model (snd (add_model r name d tier)) name = Some d \<and>
         name \<in> get_model_names (snd (add_model r name d tier)) \<and>
         fst (remove_model (snd (add_model r name d tier)) name)) \<and>
      snd (remove_model (snd (add_model r name d tier)) name) = r \<and>
      get_model (snd (remove_model (snd (add_model r name d tier)) name)) name = None \<and>
      name \<notin> get_model_names (snd (remove_model (snd (add_model r name d tier)) name)))
   \<and> (\<forall>t. supplying_tier r name = Some t \<longrightarrow>
         tier_map r t name \<noteq> None \<and> get_model r name = tier_map r t name \<and>
         fst (remove_model r name) \<and>
         tier_map (snd (remove_model r name)) t name = None \<and>
         (\<forall>t' n. (t', n) \<noteq> (t, name) \<longrightarrow>
            tier_map (snd (remove_model r name)) t' n = tier_map r t' n))
   \<and> ((\<forall>t. tier_map r t name = None) \<longrightarrow> remove_model r name = (False, r))"
proof (intro conjI impI allI)
  assume "\<forall>t. tier_map r t name = None"
  then show "remove_model r name = (False, r)"
    by (simp add: supplying_tier_None_iff[symmetric] remove_model_def)
next
  fix t assume t: "supplying_tier r name = Some t"
  from supplying_tier_supplies[OF t] show "tier_map r t name \<noteq> None"
    "get_model r name = tier_map r t name" by simp_all
  from remove_model_supplied[OF t] show "fst (remove_model r name)"
    "tier_map (snd (remove_model r name)) t name = None"
    "\<And>t' n. (t', n) \<noteq> (t, name) \<Longrightarrow>
        tier_map (snd (remove_model r name)) t' n = tier_map r t' n"
    by blast+
next
  assume none: "get_model r name = None"
  note roundtrip = add_then_remove[OF none, of d tier]
  from roundtrip show restored: "snd (remove_model (snd (add_model r name d tier)) name) = r" by simp
  from none show "get_model (snd (remove_model (snd (add_model r name d tier)) name)) name = None"
    by (simp add: restored)
  from none show "name \<notin> get_model_names (snd (remove_model (snd (add_model r name d tier)) name))"
    by (auto simp: restored get_model_names_def get_model_None_iff)
  assume valid: "repo_id d \<noteq> None \<and> model_type d \<noteq> None"
  then show added: "fst (add_model r name d tier)" by (simp add: add_model_def)
  with roundtrip show "fst (remove_model (snd (add_model r name d tier)) name)" by simp
  from none have "runtime r name = None" "file_configured r name = None"
    by (simp_all add: get_model_None_iff)
  with valid show "get_model (snd (add_model r name d tier)) name = Some d"
    by (cases tier) (auto simp: add_model_def get_model_cases)
  from valid show "name \<in> get_model_names (snd (add_model r name d tier))"
    by (cases tier) (auto simp: add_model_def get_model_names_def)
qed

theorem C8_add_then_remove_witness:
  "fst (add_model
     \<lparr>builtin = [''flux.1-dev'' \<mapsto> \<lparr>repo_id = Some ''black-forest-labs/FLUX.1-dev'', model_type = Some ''flux'', variant = None\<rparr>],
        file_configured = Map.empty, runtime = Map.empty\<rparr> ''m''
     \<lparr>repo_id = Some ''org/m'', model_type = Some ''x'', variant = None\<rparr> Runtime)
   \<and> get_model (snd (remove_model (snd (add_model
     \<lparr>builtin = [''flux.1-dev'' \<mapsto> \<lparr>repo_id = Some ''black-forest-labs/FLUX.1-dev'', model_type = Some ''flux'', variant = None\<rparr>],
        file_configured = Map.empty, runtime = Map.empty\<rparr> ''m''
     \<lparr>repo_id = Some ''org/m'', model_type = Some ''x'', variant = None\<rparr> Runtime)) ''m'')) ''m'' = None
   \<and> ''m'' \<notin> get_model_names (snd (remove_model (snd (add_model
     \<lparr>builtin = [''flux.1-dev'' \<mapsto> \<lparr>repo_id = Some ''black-forest-labs/FLUX.1-dev'', model_type = Some ''flux'', variant = None\<rparr>],
        file_configured = Map.empty, runtime = Map.empty\<rparr> ''m''
     \<lparr>repo_id = Some ''org/m'', model_type = Some ''x'', variant = None\<rparr> Runtime)) ''m''))
   \<and> remove_model
     \<lparr>builtin = [''flux.1-dev'' \<mapsto> \<lparr>repo_id = Some ''black-forest-labs/FLUX.1-dev'', model_type = Some ''flux'', variant = None\<rparr>],
        file_configured = Map.empty, runtime = Map.empty\<rparr> ''m'' =
     (False, \<lparr>builtin = [''flux.1-dev'' \<mapsto> \<lparr>repo_id = Some ''black-forest-labs/FLUX.1-dev'', model_type = Some ''flux'', variant = None\<rparr>],
        file_configured = Map.empty, runtime = Map.empty\<rparr>)"
proof -
  let ?r = "\<lparr>builtin = [''flux.1-dev'' \<mapsto> \<lparr>repo_id = Some ''black-forest-labs/FLUX.1-dev'', model_type = Some ''flux'', variant = None\<rparr>],
        file_configured = Map.empty, runtime = Map.empty\<rparr>"
  let ?d = "\<lparr>repo_id = Some ''org/m'', model_type = Some ''x'', variant = None\<rparr>"
  have fresh: "get_model ?r ''m'' = None" by (simp add: get_model_cases)
  have nowhere: "\<forall>t. tier_map ?r t ''m'' = None"
    by (intro allI, case_tac t) simp_all
  note inst = C8_add_then_remove [of ?r "''m''" ?d Runtime]
  have valid: "repo_id ?d \<noteq> None \<and> model_type ?d \<noteq> None" by simp
  note fresh_case = inst [THEN conjunct1, THEN mp, OF fresh]
  from fresh_case [THEN conjunct1, THEN mp, OF valid]
  have a: "fst (add_model ?r ''m'' ?d Runtime)" by (rule conjunct1)
  from fresh_case
  have b: "get_model (snd (remove_model (snd (add_model ?r ''m'' ?d Runtime)) ''m'')) ''m'' = None"
    and c: "''m'' \<notin> get_model_names (snd (remove_model (snd (add_model ?r ''m'' ?d Runtime)) ''m''))"
    by blast+
  from inst [THEN conjunct2, THEN conjunct2, THEN mp, OF nowhere]
  have d: "remove_model ?r ''m'' = (False, ?r)" .
  from a b c d show ?thesis by (intro conjI)
qed

end
